theory Spec2Isabelle
  imports
    Complex_Main
    "HOL-Library.Word"
    "HOL-Library.Multiset"
    "HOL-Library.Char_ord"
    "HOL-Library.List_Lexorder"
begin

section \<open>The pack registry of resourcepack-server (package \<open>pack\<close>)\<close>

text \<open>
  A shallow embedding of \<open>PacksManager\<close> and its operations (\<open>scanPacks\<close>,
  \<open>loadZipPack\<close>, \<open>loadDirectoryPack\<close>, \<open>parsePackMcmeta\<close>,
  \<open>calculateDirectoryHash\<close>, \<open>handleFileEvent\<close>, \<open>CreateZipFromDirectory\<close>,
  \<open>RescanPacks\<close>).  Go strings are byte strings and are modelled as \<open>string\<close>;
  \<open>int64\<close> is \<open>64 word\<close> read with \<open>sint\<close>; Go's \<open>map[string]*ResourcePack\<close> is
  a partial map.  The operating system, the clock and the standard library
  (MD5, the JSON decoder, the zip reader) are inputs of the model: every
  operation takes the answers the system gives as explicit arguments.
\<close>

subsection \<open>Standard-library functions the package calls\<close>

type_synonym path = string
type_synonym int64 = "64 word"

text \<open>\<open>fmt.Sprintf("%d", n)\<close>: decimal digits, a leading minus sign for negatives.\<close>

definition digit_char :: "nat \<Rightarrow> char" where
  "digit_char n = ''0123456789'' ! n"

function dec_digits :: "nat \<Rightarrow> string" where
  "dec_digits n =
     (if n < 10 then [digit_char n]
      else dec_digits (n div 10) @ [digit_char (n mod 10)])"
  by pat_completeness auto
termination
  by (relation "measure id") auto

declare dec_digits.simps [simp del]

definition fmt_d :: "int \<Rightarrow> string" where
  "fmt_d i = (if i < 0 then CHR ''-'' # dec_digits (nat (- i)) else dec_digits (nat i))"

text \<open>\<open>fmt.Sprintf("%x", bytes)\<close>: two lower-case hexadecimal digits per byte.\<close>

definition hex_digit :: "nat \<Rightarrow> char" where
  "hex_digit n = ''0123456789abcdef'' ! n"

definition fmt_x :: "8 word list \<Rightarrow> string" where
  "fmt_x bs = concat (map (\<lambda>b. [hex_digit (unat b div 16), hex_digit (unat b mod 16)]) bs)"

text \<open>\<open>strings.Join\<close>, \<open>strings.HasSuffix\<close>, \<open>strings.TrimSuffix\<close>.\<close>

fun strings_Join :: "string list \<Rightarrow> string \<Rightarrow> string" where
  "strings_Join [] sep = []"
| "strings_Join [x] sep = x"
| "strings_Join (x # y # ys) sep = x @ sep @ strings_Join (y # ys) sep"

definition strings_HasSuffix :: "string \<Rightarrow> string \<Rightarrow> bool" where
  "strings_HasSuffix s suf \<longleftrightarrow>
     length suf \<le> length s \<and> drop (length s - length suf) s = suf"

definition strings_TrimSuffix :: "string \<Rightarrow> string \<Rightarrow> string" where
  "strings_TrimSuffix s suf =
     (if strings_HasSuffix s suf then take (length s - length suf) s else s)"

text \<open>
  \<open>filepath.Base\<close> on a Unix path: the empty path gives \<open>"."\<close>, trailing
  separators are stripped, the last element is returned, and a path of
  separators only gives \<open>"/"\<close>.
\<close>

definition filepath_Base :: "path \<Rightarrow> string" where
  "filepath_Base p =
     (if p = [] then ''.''
      else let stripped = rev (dropWhile (\<lambda>c. c = CHR ''/'') (rev p));
               elem = rev (takeWhile (\<lambda>c. c \<noteq> CHR ''/'') (rev stripped))
           in if elem = [] then ''/'' else elem)"

text \<open>
  \<open>filepath.Join(dir, elem)\<close> for a clean directory path and one path element,
  which is what every caller in the package passes (the lexical normalisation
  of \<open>filepath.Clean\<close> is the identity there).  \<open>filepath.Rel(base, p)\<close> for the
  paths \<open>filepath.Walk(base, _)\<close> hands to its callback: \<open>base\<close> itself or
  \<open>base/rest\<close>.
\<close>

definition filepath_Join :: "path \<Rightarrow> string \<Rightarrow> path" where
  "filepath_Join dir elem = dir @ ''/'' @ elem"

definition filepath_Rel :: "path \<Rightarrow> path \<Rightarrow> string" where
  "filepath_Rel base p =
     (if p = base then ''.''
      else if take (length base + 1) p = base @ ''/'' then drop (length base + 1) p
      else p)"

text \<open>
  \<open>time.Time\<close> is a count of nanoseconds since the Unix epoch; \<open>time.Duration\<close>
  is an \<open>int64\<close> count of nanoseconds, given here by its integer value.
  \<open>Time.Sub\<close> (and so \<open>time.Since\<close>) saturates at the ends of the \<open>int64\<close> range.
\<close>

type_synonym time = int
type_synonym duration = int

definition time_Unix :: "time \<Rightarrow> int64" where
  "time_Unix t = word_of_int (t div 1000000000)"

definition time_Sub :: "time \<Rightarrow> time \<Rightarrow> duration" where
  "time_Sub t u = max (- (2 ^ 63)) (min (2 ^ 63 - 1) (t - u))"

definition zero_Time :: time where
  "zero_Time = - 62135596800 * 1000000000"

definition Millisecond :: duration where
  "Millisecond = 1000000"

definition Second :: duration where
  "Second = 1000000000"

text \<open>
  The value \<open>encoding/json\<close> decodes a document to when the target is an
  \<open>interface{}\<close>: \<open>nil\<close>, \<open>bool\<close>, \<open>float64\<close>, \<open>string\<close>, a slice, or a
  \<open>map[string]interface{}\<close> (given by its key-value pairs, looked up with
  \<open>map_of\<close>).  A decoded \<open>float64\<close> is finite and is given by its real value.
\<close>

datatype jvalue =
    JNil
  | JBool bool
  | JFloat real
  | JString string
  | JSlice "jvalue list"
  | JMap "(string \<times> jvalue) list"

text \<open>
  The conversion \<open>int(f)\<close> of a \<open>float64\<close> discards the fraction (truncation
  towards zero).  For values outside the range of \<open>int\<close> Go leaves the result
  to the implementation; nothing below depends on it.
\<close>

definition int_of_float64 :: "real \<Rightarrow> int" where
  "int_of_float64 f = (if 0 \<le> f then \<lfloor>f\<rfloor> else \<lceil>f\<rceil>)"

datatype error =
    OsError string
  | JsonError
  | ReadDirFailed error

text \<open>The two library functions that are pure: \<open>md5.Sum\<close> and the JSON decoder.\<close>

record stdlib =
  md5_Sum :: "string \<Rightarrow> 8 word list"
  json_decode :: "string \<Rightarrow> jvalue option"

subsection \<open>The file system as the package observes it\<close>

record FileInfo =
  fi_Size :: int64
  fi_ModTime :: time
  fi_IsDir :: bool

record DirEntry =
  de_Name :: string
  de_IsDir :: bool

text \<open>
  One call of the callback that \<open>filepath.Walk\<close> makes: either with an error
  (\<open>err != nil\<close>) or with the path visited and its \<open>FileInfo\<close>.
\<close>

datatype WalkVisit =
    VisitErr error
  | Visit path FileInfo

text \<open>
  An entry of an opened zip archive: its name, and what \<open>file.Open()\<close> followed
  by \<open>io.ReadAll\<close> gives (the outer error is that of \<open>Open\<close>, the inner one that of
  \<open>ReadAll\<close>).
\<close>

record ZipFile =
  zf_Name :: string
  zf_Open :: "error + (error + string)"

text \<open>
  The answers of the operating system during one operation.  \<open>os_Open\<close> gives
  the outcome of \<open>os.Open\<close> and then of reading the whole file (\<open>io.Copy\<close>);
  \<open>os_Create\<close> and \<open>zip_Create\<close> give the error, if any, of creating a file and
  of starting an entry in the archive being written.
\<close>

record os_env =
  os_Stat :: "path \<Rightarrow> error + FileInfo"
  os_ReadFile :: "path \<Rightarrow> error + string"
  os_ReadDir :: "path \<Rightarrow> error + DirEntry list"
  os_Open :: "path \<Rightarrow> error + (error + string)"
  filepath_Walk :: "path \<Rightarrow> WalkVisit list"
  zip_OpenReader :: "path \<Rightarrow> error + ZipFile list"
  os_Create :: "path \<Rightarrow> error option"
  zip_Create :: "string \<Rightarrow> error option"

subsection \<open>Data model\<close>

record ResourcePack =
  Name :: string
  Path :: path
  Description :: string
  PackFormat :: int
  Size :: int64
  Hash :: string
  LastModified :: time
  IsDirectory :: bool

record PackInfo =
  pi_Description :: string
  pi_PackFormat :: int

text \<open>What the manager writes to its logger, in order.\<close>

datatype log_entry =
    ScanStarted path
  | RootPackFound string
  | SubdirPackFound string
  | ZipPackFound string
  | PacksAdded "string set"
  | PacksRemoved "string set"
  | ScanFinished nat
  | ScanAfterChangeFailed error
  | TempZipCreated path

text \<open>
  \<open>PacksManager\<close>: the fields the operations read and write.  The mutex, the
  watcher handle and the stop channel have no sequential content; \<open>logger\<close>
  holds the entries written so far.
\<close>

record PacksManager =
  packsDirectory :: path
  tempDir :: path
  packs :: "string \<rightharpoonup> ResourcePack"
  lastScanTime :: time
  scanCooldown :: duration
  logger :: "log_entry list"

subsection \<open>Fingerprints\<close>

text \<open>
  \<open>calculateDirectoryHash\<close>: the callback appends \<open>"rel:mtime:size"\<close> for every
  visit that is not a directory and returns the first error it is handed,
  which stops the walk.
\<close>

definition file_info_line :: "path \<Rightarrow> path \<Rightarrow> FileInfo \<Rightarrow> string" where
  "file_info_line dirPath p info =
     filepath_Rel dirPath p @ '':'' @ fmt_d (sint (time_Unix (fi_ModTime info)))
       @ '':'' @ fmt_d (sint (fi_Size info))"

fun hash_walk :: "path \<Rightarrow> WalkVisit list \<Rightarrow> string list \<Rightarrow> error + string list" where
  "hash_walk dirPath [] fileInfos = Inr fileInfos"
| "hash_walk dirPath (VisitErr e # vs) fileInfos = Inl e"
| "hash_walk dirPath (Visit p info # vs) fileInfos =
     (if \<not> fi_IsDir info
      then hash_walk dirPath vs (fileInfos @ [file_info_line dirPath p info])
      else hash_walk dirPath vs fileInfos)"

definition calculateDirectoryHash :: "stdlib \<Rightarrow> os_env \<Rightarrow> path \<Rightarrow> error + string" where
  "calculateDirectoryHash lib env dirPath =
     (case hash_walk dirPath (filepath_Walk env dirPath) [] of
        Inl err \<Rightarrow> Inl err
      | Inr fileInfos \<Rightarrow>
          Inr (fmt_x (md5_Sum lib (strings_Join (sort fileInfos) [CHR 0x0A]))))"

fun size_walk :: "WalkVisit list \<Rightarrow> int64 \<Rightarrow> error + int64" where
  "size_walk [] totalSize = Inr totalSize"
| "size_walk (VisitErr e # vs) totalSize = Inl e"
| "size_walk (Visit p info # vs) totalSize =
     (if \<not> fi_IsDir info then size_walk vs (totalSize + fi_Size info)
      else size_walk vs totalSize)"

definition calculateDirectorySize :: "os_env \<Rightarrow> path \<Rightarrow> error + int64" where
  "calculateDirectorySize env dirPath = size_walk (filepath_Walk env dirPath) 0"

definition calculateFileHash :: "stdlib \<Rightarrow> os_env \<Rightarrow> path \<Rightarrow> error + string" where
  "calculateFileHash lib env filePath =
     (case os_Open env filePath of
        Inl err \<Rightarrow> Inl err
      | Inr (Inl err) \<Rightarrow> Inl err
      | Inr (Inr bytes) \<Rightarrow> Inr (fmt_x (md5_Sum lib bytes)))"

subsection \<open>Loading one candidate\<close>

text \<open>
  \<open>json.Unmarshal\<close> into a \<open>map[string]interface{}\<close>: an object gives its map,
  \<open>null\<close> leaves the map \<open>nil\<close> without an error, anything else is an error.
\<close>

definition json_Unmarshal :: "stdlib \<Rightarrow> string \<Rightarrow> error + (string \<times> jvalue) list" where
  "json_Unmarshal lib content =
     (case json_decode lib content of
        None \<Rightarrow> Inl JsonError
      | Some (JMap m) \<Rightarrow> Inr m
      | Some JNil \<Rightarrow> Inr []
      | Some _ \<Rightarrow> Inl JsonError)"

definition parsePackMcmeta :: "stdlib \<Rightarrow> string \<Rightarrow> PackInfo option" where
  "parsePackMcmeta lib content =
     (case json_Unmarshal lib content of
        Inl err \<Rightarrow> None
      | Inr data \<Rightarrow>
          (case map_of data ''pack'' of
             Some (JMap pack) \<Rightarrow>
               (let description =
                      (case map_of pack ''description'' of
                         Some (JString desc) \<Rightarrow> desc
                       | _ \<Rightarrow> []);
                    packFormat =
                      (case map_of pack ''pack_format'' of
                         Some (JFloat format) \<Rightarrow> int_of_float64 format
                       | _ \<Rightarrow> 22)
                in Some \<lparr>pi_Description = description, pi_PackFormat = packFormat\<rparr>)
           | _ \<Rightarrow> None))"

definition isResourcePackDirectory :: "os_env \<Rightarrow> path \<Rightarrow> bool" where
  "isResourcePackDirectory env dirPath =
     (case os_Stat env (filepath_Join dirPath ''pack.mcmeta'') of
        Inl err \<Rightarrow> False
      | Inr info \<Rightarrow> True)"

text \<open>
  The manifest lookup of \<open>loadZipPack\<close>: the first entry named exactly
  \<open>pack.mcmeta\<close> is opened, read and parsed; the loop stops there whatever the
  outcome.  \<open>None\<close> means that description and format keep their defaults.
\<close>

definition zip_pack_info :: "stdlib \<Rightarrow> os_env \<Rightarrow> path \<Rightarrow> PackInfo option" where
  "zip_pack_info lib env packPath =
     (case zip_OpenReader env packPath of
        Inl err \<Rightarrow> None
      | Inr files \<Rightarrow>
          (case find (\<lambda>file. zf_Name file = ''pack.mcmeta'') files of
             None \<Rightarrow> None
           | Some file \<Rightarrow>
               (case zf_Open file of
                  Inr (Inr content) \<Rightarrow> parsePackMcmeta lib content
                | _ \<Rightarrow> None)))"

definition loadZipPack :: "stdlib \<Rightarrow> os_env \<Rightarrow> path \<Rightarrow> error + ResourcePack" where
  "loadZipPack lib env packPath =
     (case os_Stat env packPath of
        Inl err \<Rightarrow> Inl err
      | Inr stat \<Rightarrow>
          (let name = strings_TrimSuffix (filepath_Base packPath) ''.zip'';
               packInfo = zip_pack_info lib env packPath;
               description =
                 (case packInfo of
                    None \<Rightarrow> ''Resource Pack: '' @ name
                  | Some i \<Rightarrow> pi_Description i);
               packFormat = (case packInfo of None \<Rightarrow> 22 | Some i \<Rightarrow> pi_PackFormat i)
           in case calculateFileHash lib env packPath of
                Inl err \<Rightarrow> Inl err
              | Inr hash \<Rightarrow>
                  Inr \<lparr>Name = name, Path = packPath, Description = description,
                       PackFormat = packFormat, Size = fi_Size stat, Hash = hash,
                       LastModified = fi_ModTime stat, IsDirectory = False\<rparr>))"

definition dir_pack_info :: "stdlib \<Rightarrow> os_env \<Rightarrow> path \<Rightarrow> PackInfo option" where
  "dir_pack_info lib env dirPath =
     (case os_ReadFile env (filepath_Join dirPath ''pack.mcmeta'') of
        Inl err \<Rightarrow> None
      | Inr content \<Rightarrow> parsePackMcmeta lib content)"

definition loadDirectoryPack :: "stdlib \<Rightarrow> os_env \<Rightarrow> path \<Rightarrow> error + ResourcePack" where
  "loadDirectoryPack lib env dirPath =
     (let name = filepath_Base dirPath;
          packInfo = dir_pack_info lib env dirPath;
          description =
            (case packInfo of
               None \<Rightarrow> ''Resource Pack: '' @ name
             | Some i \<Rightarrow> pi_Description i);
          packFormat = (case packInfo of None \<Rightarrow> 22 | Some i \<Rightarrow> pi_PackFormat i)
      in case calculateDirectorySize env dirPath of
           Inl err \<Rightarrow> Inl err
         | Inr totalSize \<Rightarrow>
             (case calculateDirectoryHash lib env dirPath of
                Inl err \<Rightarrow> Inl err
              | Inr hash \<Rightarrow>
                  (case os_Stat env dirPath of
                     Inl err \<Rightarrow> Inl err
                   | Inr stat \<Rightarrow>
                       Inr \<lparr>Name = name, Path = dirPath, Description = description,
                            PackFormat = packFormat, Size = totalSize, Hash = hash,
                            LastModified = fi_ModTime stat, IsDirectory = True\<rparr>)))"

subsection \<open>Scanning\<close>

definition add_pack :: "PacksManager \<Rightarrow> ResourcePack \<Rightarrow> log_entry \<Rightarrow> PacksManager" where
  "add_pack pm pack msg =
     pm\<lparr>packs := (packs pm)(Name pack \<mapsto> pack), logger := logger pm @ [msg]\<rparr>"

text \<open>The body of the loop over the entries of the root directory.\<close>

definition scan_entry :: "stdlib \<Rightarrow> os_env \<Rightarrow> PacksManager \<Rightarrow> DirEntry \<Rightarrow> PacksManager" where
  "scan_entry lib env pm entry =
     (let entryPath = filepath_Join (packsDirectory pm) (de_Name entry)
      in if de_IsDir entry then
           (if isResourcePackDirectory env entryPath then
              (case loadDirectoryPack lib env entryPath of
                 Inr pack \<Rightarrow> add_pack pm pack (SubdirPackFound (Name pack))
               | Inl err \<Rightarrow> pm)
            else pm)
         else if strings_HasSuffix (de_Name entry) ''.zip'' then
           (case loadZipPack lib env entryPath of
              Inr pack \<Rightarrow> add_pack pm pack (ZipPackFound (Name pack))
            | Inl err \<Rightarrow> pm)
         else pm)"

text \<open>The root directory itself, loaded before the directory is read.\<close>

definition scan_root :: "stdlib \<Rightarrow> os_env \<Rightarrow> PacksManager \<Rightarrow> PacksManager" where
  "scan_root lib env pm =
     (if isResourcePackDirectory env (packsDirectory pm) then
        (case loadDirectoryPack lib env (packsDirectory pm) of
           Inr pack \<Rightarrow> add_pack pm pack (RootPackFound (Name pack))
         | Inl err \<Rightarrow> pm)
      else pm)"

text \<open>
  \<open>scanPacks\<close>, with \<open>now\<close> the reading of \<open>time.Now()\<close> at its end.  The index
  is reset first and filled in place; the names added and removed are logged
  as sets, since Go iterates a map in no fixed order.
\<close>

definition scanPacks ::
  "stdlib \<Rightarrow> os_env \<Rightarrow> time \<Rightarrow> PacksManager \<Rightarrow> error option \<times> PacksManager" where
  "scanPacks lib env now pm =
     (let oldPacks = dom (packs pm);
          pm1 = pm\<lparr>packs := Map.empty,
                    logger := logger pm @ [ScanStarted (packsDirectory pm)]\<rparr>;
          pm2 = scan_root lib env pm1
      in case os_ReadDir env (packsDirectory pm2) of
           Inl err \<Rightarrow> (Some (ReadDirFailed err), pm2)
         | Inr entries \<Rightarrow>
             (let pm3 = foldl (scan_entry lib env) pm2 entries;
                  newPacks = dom (packs pm3);
                  added = newPacks - oldPacks;
                  removed = oldPacks - newPacks;
                  pm4 = (if added \<noteq> {} then pm3\<lparr>logger := logger pm3 @ [PacksAdded added]\<rparr>
                         else pm3);
                  pm5 = (if removed \<noteq> {}
                         then pm4\<lparr>logger := logger pm4 @ [PacksRemoved removed]\<rparr>
                         else pm4)
              in (None,
                  pm5\<lparr>logger := logger pm5 @ [ScanFinished (card (dom (packs pm5)))],
                       lastScanTime := now\<rparr>)))"

definition RescanPacks ::
  "stdlib \<Rightarrow> os_env \<Rightarrow> time \<Rightarrow> PacksManager \<Rightarrow> error option \<times> PacksManager" where
  "RescanPacks lib env now pm = scanPacks lib env now pm"

text \<open>
  \<open>rescanPacksHandler\<close>: the goroutine it starts runs \<open>RescanPacks\<close> (an error goes
  to the server's own log), and the response reports success at once.
\<close>

definition rescanPacksHandler ::
  "stdlib \<Rightarrow> os_env \<Rightarrow> time \<Rightarrow> PacksManager \<Rightarrow> bool \<times> PacksManager" where
  "rescanPacksHandler lib env now pm = (True, snd (RescanPacks lib env now pm))"

definition GetPack :: "PacksManager \<Rightarrow> string \<Rightarrow> ResourcePack option" where
  "GetPack pm name = packs pm name"

definition GetAllPacks :: "PacksManager \<Rightarrow> ResourcePack set" where
  "GetAllPacks pm = ran (packs pm)"

subsection \<open>Change notifications\<close>

text \<open>
  The clock is part of the state.  \<open>handleFileEvent\<close> reads it for the cooldown
  check; \<open>time.Sleep\<close> advances it by the requested 500 ms, the scan by the time
  \<open>scan_dur\<close> its I/O takes, and the scan reads \<open>time.Now()\<close> at its end.
\<close>

definition handleFileEvent ::
  "stdlib \<Rightarrow> os_env \<Rightarrow> duration \<Rightarrow> time \<times> PacksManager \<Rightarrow> time \<times> PacksManager" where
  "handleFileEvent lib env scan_dur st =
     (let clock = fst st; pm = snd st
      in if time_Sub clock (lastScanTime pm) < scanCooldown pm then (clock, pm)
         else
           (let clock1 = clock + 500 * Millisecond;
                clock2 = clock1 + scan_dur
            in case scanPacks lib env clock2 pm of
                 (None, pm') \<Rightarrow> (clock2, pm')
               | (Some err, pm') \<Rightarrow>
                   (clock2, pm'\<lparr>logger := logger pm' @ [ScanAfterChangeFailed err]\<rparr>)))"

text \<open>
  A notification on \<open>watcher.Events\<close>: when it arrives, what the file system
  answers during the scan it may trigger, and how long that scan takes.  The
  goroutine of \<open>startFileMonitoring\<close> handles notifications one after the
  other: it takes the next one as soon as it is free and the notification has
  arrived.
\<close>

record notification =
  ev_time :: time
  ev_env :: os_env
  ev_scan_dur :: duration

definition watch_step ::
  "stdlib \<Rightarrow> time \<times> PacksManager \<Rightarrow> notification \<Rightarrow> time \<times> PacksManager" where
  "watch_step lib st ev =
     handleFileEvent lib (ev_env ev) (ev_scan_dur ev) (max (fst st) (ev_time ev), snd st)"

definition watch_loop ::
  "stdlib \<Rightarrow> time \<times> PacksManager \<Rightarrow> notification list \<Rightarrow> time \<times> PacksManager" where
  "watch_loop lib st evs = foldl (watch_step lib) st evs"

text \<open>The number of scans a manager has started, read off its log.\<close>

fun is_ScanStarted :: "log_entry \<Rightarrow> bool" where
  "is_ScanStarted (ScanStarted d) = True"
| "is_ScanStarted _ = False"

definition scans_started :: "PacksManager \<Rightarrow> nat" where
  "scans_started pm = length (filter is_ScanStarted (logger pm))"

subsection \<open>Archives for directory packs\<close>

text \<open>
  The walk of \<open>CreateZipFromDirectory\<close>: directories are passed over, every other
  visit is opened, given an entry under its relative path and copied; the
  first error stops the walk.  The accumulator holds the entries written.
\<close>

fun zip_walk ::
  "os_env \<Rightarrow> path \<Rightarrow> WalkVisit list \<Rightarrow> (string \<times> string) list
     \<Rightarrow> error + (string \<times> string) list" where
  "zip_walk env dirPath [] written = Inr written"
| "zip_walk env dirPath (VisitErr e # vs) written = Inl e"
| "zip_walk env dirPath (Visit p info # vs) written =
     (if fi_IsDir info then zip_walk env dirPath vs written
      else
        (let relPath = filepath_Rel dirPath p
         in case os_Open env p of
              Inl err \<Rightarrow> Inl err
            | Inr file \<Rightarrow>
                (case zip_Create env relPath of
                   Some err \<Rightarrow> Inl err
                 | None \<Rightarrow>
                     (case file of
                        Inl err \<Rightarrow> Inl err
                      | Inr bytes \<Rightarrow> zip_walk env dirPath vs (written @ [(relPath, bytes)])))))"

definition temp_zip_path :: "PacksManager \<Rightarrow> string \<Rightarrow> time \<Rightarrow> path" where
  "temp_zip_path pm packName now =
     filepath_Join (tempDir pm) (packName @ ''_'' @ fmt_d (sint (time_Unix now)) @ ''.zip'')"

text \<open>
  \<open>CreateZipFromDirectory\<close>, with \<open>now\<close> the reading of \<open>time.Now()\<close>: the path
  returned or the error, and the manager with its log.
\<close>

definition CreateZipFromDirectory ::
  "os_env \<Rightarrow> time \<Rightarrow> PacksManager \<Rightarrow> path \<Rightarrow> string \<Rightarrow> (error + path) \<times> PacksManager" where
  "CreateZipFromDirectory env now pm dirPath packName =
     (let zipPath = temp_zip_path pm packName now
      in case os_Create env zipPath of
           Some err \<Rightarrow> (Inl err, pm)
         | None \<Rightarrow>
             (case zip_walk env dirPath (filepath_Walk env dirPath) [] of
                Inl err \<Rightarrow> (Inl err, pm)
              | Inr written \<Rightarrow>
                  (Inr zipPath, pm\<lparr>logger := logger pm @ [TempZipCreated zipPath]\<rparr>)))"

subsection \<open>Notions used to state the properties\<close>

text \<open>
  The tuples \<open>(relativePath, modTimeUnix, sizeBytes)\<close> of the visits of a walk
  that are not directories, in the order of the walk, and the line
  \<open>calculateDirectoryHash\<close> formats for a tuple.
\<close>

fun walk_tuples :: "path \<Rightarrow> WalkVisit list \<Rightarrow> (string \<times> int64 \<times> int64) list" where
  "walk_tuples dirPath [] = []"
| "walk_tuples dirPath (VisitErr e # vs) = walk_tuples dirPath vs"
| "walk_tuples dirPath (Visit p info # vs) =
     (if fi_IsDir info then walk_tuples dirPath vs
      else (filepath_Rel dirPath p, time_Unix (fi_ModTime info), fi_Size info)
             # walk_tuples dirPath vs)"

fun tuple_line :: "string \<times> int64 \<times> int64 \<Rightarrow> string" where
  "tuple_line (relPath, modTimeUnix, sizeBytes) =
     relPath @ '':'' @ fmt_d (sint modTimeUnix) @ '':'' @ fmt_d (sint sizeBytes)"

text \<open>A walk in which no visit reports an error.\<close>

fun walk_ok :: "WalkVisit list \<Rightarrow> bool" where
  "walk_ok [] = True"
| "walk_ok (VisitErr e # vs) = False"
| "walk_ok (Visit p info # vs) = walk_ok vs"

text \<open>
  The pack a candidate yields, if any: what \<open>scanPacks\<close> adds for the root
  directory and for one entry of it (with the message it logs), and the packs
  a scan adds, in the order in which it adds them.
\<close>

definition root_candidate :: "stdlib \<Rightarrow> os_env \<Rightarrow> path \<Rightarrow> ResourcePack option" where
  "root_candidate lib env rootDir =
     (if isResourcePackDirectory env rootDir then
        (case loadDirectoryPack lib env rootDir of Inr pack \<Rightarrow> Some pack | Inl err \<Rightarrow> None)
      else None)"

definition entry_candidate ::
  "stdlib \<Rightarrow> os_env \<Rightarrow> path \<Rightarrow> DirEntry \<Rightarrow> ResourcePack option" where
  "entry_candidate lib env rootDir entry =
     (let entryPath = filepath_Join rootDir (de_Name entry)
      in if de_IsDir entry then
           (if isResourcePackDirectory env entryPath then
              (case loadDirectoryPack lib env entryPath of
                 Inr pack \<Rightarrow> Some pack
               | Inl err \<Rightarrow> None)
            else None)
         else if strings_HasSuffix (de_Name entry) ''.zip'' then
           (case loadZipPack lib env entryPath of Inr pack \<Rightarrow> Some pack | Inl err \<Rightarrow> None)
         else None)"

definition scan_order :: "stdlib \<Rightarrow> os_env \<Rightarrow> path \<Rightarrow> DirEntry list \<Rightarrow> ResourcePack list" where
  "scan_order lib env rootDir entries =
     (case root_candidate lib env rootDir of None \<Rightarrow> [] | Some pack \<Rightarrow> [pack])
       @ List.map_filter (entry_candidate lib env rootDir) entries"

text \<open>The index in which, of the packs of one name in a list, the last one stays.\<close>

definition last_wins :: "ResourcePack list \<Rightarrow> (string \<rightharpoonup> ResourcePack)" where
  "last_wins ps = map_of (rev (map (\<lambda>pack. (Name pack, pack)) ps))"

text \<open>The packs a log reports as found, in the order of the log.\<close>

fun found_in_log :: "log_entry list \<Rightarrow> (bool \<times> string) list" where
  "found_in_log [] = []"
| "found_in_log (RootPackFound n # es) = (True, n) # found_in_log es"
| "found_in_log (SubdirPackFound n # es) = (True, n) # found_in_log es"
| "found_in_log (ZipPackFound n # es) = (False, n) # found_in_log es"
| "found_in_log (e # es) = found_in_log es"

subsection \<open>A concrete pack directory\<close>

text \<open>
  The inputs at which the theorems below are instantiated.  The directory
  \<open>/packs\<close> holds, in the order \<open>os.ReadDir\<close> lists them: the archive
  \<open>alpha.zip\<close> without a manifest, the directory \<open>bar\<close> whose manifest has a
  \<open>pack\<close> object with no description and a \<open>pack_format\<close> that is a string, the
  directory \<open>empty\<close> without a manifest, the archive \<open>foo.zip\<close> whose manifest
  declares description \<open>Foo\<close> and format 15, and the plain file \<open>notes.txt\<close>.
  \<open>example_lib\<close> stands in for the library: a digest of sixteen equal bytes and
  a decoder that knows the two manifests.
\<close>

definition manifest_bar :: string where
  \<open>manifest_bar = ''{"pack":{"pack_format":"9"}}''\<close>

definition manifest_foo :: string where
  \<open>manifest_foo = ''{"pack":{"description":"Foo","pack_format":15}}''\<close>

definition example_lib :: stdlib where
  "example_lib =
     \<lparr>md5_Sum = (\<lambda>s. replicate 16 (of_nat (length s))),
      json_decode = (\<lambda>s.
        if s = manifest_bar then
          Some (JMap [(''pack'', JMap [(''pack_format'', JString ''9'')])])
        else if s = manifest_foo then
          Some (JMap [(''pack'',
            JMap [(''description'', JString ''Foo''), (''pack_format'', JFloat 15)])])
        else None)\<rparr>"

definition no_such_file :: error where
  "no_such_file = OsError ''no such file or directory''"

definition permission_denied :: error where
  "permission_denied = OsError ''permission denied''"

definition dir_info :: FileInfo where
  "dir_info = \<lparr>fi_Size = 4096, fi_ModTime = 1700000000 * Second, fi_IsDir = True\<rparr>"

definition file_info :: "int64 \<Rightarrow> time \<Rightarrow> FileInfo" where
  "file_info n t = \<lparr>fi_Size = n, fi_ModTime = t, fi_IsDir = False\<rparr>"

definition example_env :: os_env where
  "example_env =
     \<lparr>os_Stat = (\<lambda>p.
        if p = ''/packs'' \<or> p = ''/packs/bar'' \<or> p = ''/packs/empty'' then Inr dir_info
        else if p = ''/packs/alpha.zip'' then Inr (file_info 120 (1700000100 * Second))
        else if p = ''/packs/foo.zip'' then Inr (file_info 200 (1700000200 * Second))
        else if p = ''/packs/bar/pack.mcmeta'' then Inr (file_info 28 (1700000300 * Second))
        else Inl no_such_file),
      os_ReadFile = (\<lambda>p.
        if p = ''/packs/bar/pack.mcmeta'' then Inr manifest_bar else Inl no_such_file),
      os_ReadDir = (\<lambda>p.
        if p = ''/packs'' then
          Inr [\<lparr>de_Name = ''alpha.zip'', de_IsDir = False\<rparr>,
               \<lparr>de_Name = ''bar'', de_IsDir = True\<rparr>,
               \<lparr>de_Name = ''empty'', de_IsDir = True\<rparr>,
               \<lparr>de_Name = ''foo.zip'', de_IsDir = False\<rparr>,
               \<lparr>de_Name = ''notes.txt'', de_IsDir = False\<rparr>]
        else Inl no_such_file),
      os_Open = (\<lambda>p.
        if p = ''/packs/alpha.zip'' then Inr (Inr ''PK-alpha'')
        else if p = ''/packs/foo.zip'' then Inr (Inr ''PK-foo'')
        else if p = ''/packs/bar/pack.mcmeta'' then Inr (Inr manifest_bar)
        else if p = ''/packs/bar/assets/a.png'' then Inr (Inr ''png'')
        else Inl no_such_file),
      filepath_Walk = (\<lambda>p.
        if p = ''/packs/bar'' then
          [Visit ''/packs/bar'' dir_info,
           Visit ''/packs/bar/assets'' dir_info,
           Visit ''/packs/bar/assets/a.png'' (file_info 3 (1700000400 * Second)),
           Visit ''/packs/bar/pack.mcmeta'' (file_info 28 (1700000300 * Second))]
        else [VisitErr no_such_file]),
      zip_OpenReader = (\<lambda>p.
        if p = ''/packs/alpha.zip'' then
          Inr [\<lparr>zf_Name = ''assets/a.png'', zf_Open = Inr (Inr ''png'')\<rparr>]
        else if p = ''/packs/foo.zip'' then
          Inr [\<lparr>zf_Name = ''assets/a.png'', zf_Open = Inr (Inr ''png'')\<rparr>,
               \<lparr>zf_Name = ''pack.mcmeta'', zf_Open = Inr (Inr manifest_foo)\<rparr>]
        else Inl no_such_file),
      os_Create = (\<lambda>p. None),
      zip_Create = (\<lambda>n. None)\<rparr>"

text \<open>A manager, \<open>NewPacksManager\<close>'s initial value for \<open>/packs\<close> with a cooldown of 2 s.\<close>

definition example_pm :: PacksManager where
  "example_pm =
     \<lparr>packsDirectory = ''/packs'', tempDir = ''/tmp/resourcepack_server'',
      packs = Map.empty, lastScanTime = zero_Time, scanCooldown = 2 * Second,
      logger = []\<rparr>"

text \<open>
  The same directory \<open>/packs/bar\<close> walked in the opposite order, and a second
  tree \<open>/srv/bar\<close> with the same paths, sizes and modification seconds as
  \<open>/packs/bar\<close> but other contents: the image \<open>a.png\<close> holds other bytes, and the
  manifest was rewritten within the same second.
\<close>

definition reordered_env :: os_env where
  "reordered_env =
     example_env\<lparr>filepath_Walk := (\<lambda>p. rev (filepath_Walk example_env p))\<rparr>"

definition edited_env :: os_env where
  "edited_env =
     example_env
       \<lparr>os_Open := (\<lambda>p.
          if p = ''/srv/bar/assets/a.png'' then Inr (Inr ''gif'')
          else if p = ''/srv/bar/pack.mcmeta'' then Inr (Inr (rev manifest_bar))
          else Inl no_such_file),
        os_ReadFile := (\<lambda>p.
          if p = ''/srv/bar/pack.mcmeta'' then Inr (rev manifest_bar) else Inl no_such_file),
        filepath_Walk := (\<lambda>p.
          if p = ''/srv/bar'' then
            [Visit ''/srv/bar'' dir_info,
             Visit ''/srv/bar/pack.mcmeta''
               (file_info 28 (1700000300 * Second + 250 * Millisecond)),
             Visit ''/srv/bar/assets'' dir_info,
             Visit ''/srv/bar/assets/a.png'' (file_info 3 (1700000400 * Second))]
          else [VisitErr no_such_file])\<rparr>"

text \<open>
  The manager after a scan of \<open>/packs\<close>, and the same file system once the
  root directory can no longer be read.
\<close>

definition indexed_pm :: PacksManager where
  "indexed_pm = snd (scanPacks example_lib example_env (1700001000 * Second) example_pm)"

definition unreadable_env :: os_env where
  "unreadable_env = example_env\<lparr>os_ReadDir := (\<lambda>p. Inl permission_denied)\<rparr>"

text \<open>
  The order of loading as the specification words it: the root directory, then
  all subdirectories, then all archive files, each group in the order of the
  listing.
\<close>

definition claimed_scan_order ::
  "stdlib \<Rightarrow> os_env \<Rightarrow> path \<Rightarrow> DirEntry list \<Rightarrow> ResourcePack list" where
  "claimed_scan_order lib env rootDir entries =
     (case root_candidate lib env rootDir of None \<Rightarrow> [] | Some pack \<Rightarrow> [pack])
       @ List.map_filter (entry_candidate lib env rootDir) (filter de_IsDir entries)
       @ List.map_filter (entry_candidate lib env rootDir)
           (filter (\<lambda>entry. \<not> de_IsDir entry) entries)"

definition found_of_pack :: "ResourcePack \<Rightarrow> bool \<times> string" where
  "found_of_pack pack = (IsDirectory pack, Name pack)"

text \<open>
  A pack directory in which the subdirectory \<open>bar\<close> and the archive \<open>bar.zip\<close>
  (without a manifest) derive the same pack name.
\<close>

definition collision_env :: os_env where
  "collision_env =
     example_env
       \<lparr>os_Stat := (\<lambda>p.
          if p = ''/packs/bar.zip'' then Inr (file_info 300 (1700000500 * Second))
          else os_Stat example_env p),
        os_ReadDir := (\<lambda>p.
          if p = ''/packs'' then
            Inr [\<lparr>de_Name = ''bar'', de_IsDir = True\<rparr>,
                 \<lparr>de_Name = ''bar.zip'', de_IsDir = False\<rparr>]
          else Inl no_such_file),
        os_Open := (\<lambda>p.
          if p = ''/packs/bar.zip'' then Inr (Inr ''PK-bar'') else os_Open example_env p),
        zip_OpenReader := (\<lambda>p.
          if p = ''/packs/bar.zip'' then Inr [] else zip_OpenReader example_env p)\<rparr>"

text \<open>A notification at a given time, whose scan sees a given file system and takes 10 ms.\<close>

definition notify :: "time \<Rightarrow> os_env \<Rightarrow> notification" where
  "notify t env = \<lparr>ev_time = t, ev_env = env, ev_scan_dur = 10 * Millisecond\<rparr>"

text \<open>
  What \<open>os.ReadDir\<close> guarantees of a listing it returns: the entries are sorted
  by file name, and a file name is unique in its directory, not empty and
  free of separators.
\<close>

definition listing_ok :: "DirEntry list \<Rightarrow> bool" where
  "listing_ok entries \<longleftrightarrow>
     sorted (map de_Name entries) \<and> distinct (map de_Name entries)
       \<and> list_all (\<lambda>entry. de_Name entry \<noteq> [] \<and> CHR ''/'' \<notin> set (de_Name entry)) entries"

text \<open>The archive \<open>bar.zip\<close> once more, now holding the manifest of the directory \<open>bar\<close>.\<close>

definition manifest_zip_env :: os_env where
  "manifest_zip_env =
     collision_env
       \<lparr>zip_OpenReader := (\<lambda>p.
          if p = ''/packs/bar.zip'' then
            Inr [\<lparr>zf_Name = ''assets/a.png'', zf_Open = Inr (Inr ''png'')\<rparr>,
                 \<lparr>zf_Name = ''pack.mcmeta'', zf_Open = Inr (Inr manifest_bar)\<rparr>]
          else zip_OpenReader collision_env p)\<rparr>"

section \<open>Properties\<close>

subsection \<open>Scanning adds the candidates in order\<close>

lemma found_in_log_append: "found_in_log (xs @ ys) = found_in_log xs @ found_in_log ys"
  by (induction xs rule: found_in_log.induct) simp_all

lemma last_wins_snoc: "last_wins (ps @ [p]) = (last_wins ps)(Name p \<mapsto> p)"
  by (simp add: last_wins_def)

lemma last_wins_append: "last_wins (ps @ qs) = last_wins ps ++ last_wins qs"
  by (simp add: last_wins_def)

lemma scan_entry_candidate:
  "scan_entry lib env pm entry =
     (case entry_candidate lib env (packsDirectory pm) entry of
        None \<Rightarrow> pm
      | Some pack \<Rightarrow>
          add_pack pm pack
            (if de_IsDir entry then SubdirPackFound (Name pack) else ZipPackFound (Name pack)))"
  by (simp add: scan_entry_def entry_candidate_def Let_def split: sum.splits)

lemma scan_entry_packsDirectory [simp]:
  "packsDirectory (scan_entry lib env pm entry) = packsDirectory pm"
  by (simp add: scan_entry_candidate add_pack_def split: option.splits)

lemma scan_entry_other [simp]:
  "lastScanTime (scan_entry lib env pm entry) = lastScanTime pm"
  "scanCooldown (scan_entry lib env pm entry) = scanCooldown pm"
  "tempDir (scan_entry lib env pm entry) = tempDir pm"
  by (simp_all add: scan_entry_candidate add_pack_def split: option.splits)

lemma foldl_scan_entry_fields [simp]:
  "packsDirectory (foldl (scan_entry lib env) pm entries) = packsDirectory pm"
  "lastScanTime (foldl (scan_entry lib env) pm entries) = lastScanTime pm"
  "scanCooldown (foldl (scan_entry lib env) pm entries) = scanCooldown pm"
  "tempDir (foldl (scan_entry lib env) pm entries) = tempDir pm"
  by (induction entries arbitrary: pm) simp_all

lemma last_wins_Cons: "last_wins (p # ps) = [Name p \<mapsto> p] ++ last_wins ps"
  using last_wins_append [of "[p]" ps] by (simp add: last_wins_def)

lemma map_upd_add: "m(k \<mapsto> v) ++ r = m ++ ([k \<mapsto> v] ++ r)"
  by (rule ext) (simp add: map_add_def split: option.splits)

lemma foldl_scan_entry_packs:
  "packs (foldl (scan_entry lib env) pm entries) =
     packs pm ++ last_wins (List.map_filter (entry_candidate lib env (packsDirectory pm)) entries)"
proof (induction entries arbitrary: pm)
  case Nil
  show ?case by (simp add: last_wins_def map_filter_simps)
next
  case (Cons e es)
  let ?rest = "List.map_filter (entry_candidate lib env (packsDirectory pm)) es"
  have IH: "packs (foldl (scan_entry lib env) (scan_entry lib env pm e) es) =
              packs (scan_entry lib env pm e) ++ last_wins ?rest"
    using Cons.IH [of "scan_entry lib env pm e"] by simp
  show ?case
  proof (cases "entry_candidate lib env (packsDirectory pm) e")
    case None
    then have "scan_entry lib env pm e = pm"
      by (simp add: scan_entry_candidate)
    with None IH show ?thesis
      by (simp add: map_filter_simps)
  next
    case (Some p)
    then have "packs (scan_entry lib env pm e) = (packs pm)(Name p \<mapsto> p)"
      by (simp add: scan_entry_candidate add_pack_def)
    moreover have "(packs pm)(Name p \<mapsto> p) ++ last_wins ?rest =
        packs pm ++ last_wins (p # ?rest)"
      unfolding last_wins_Cons by (rule map_upd_add)
    ultimately have "packs (foldl (scan_entry lib env) (scan_entry lib env pm e) es) =
        packs pm ++ last_wins (p # ?rest)"
      using IH by (simp only:)
    with Some show ?thesis
      by (simp add: map_filter_simps)
  qed
qed

lemma foldl_scan_entry_found:
  "found_in_log (logger (foldl (scan_entry lib env) pm entries)) =
     found_in_log (logger pm)
       @ List.map_filter (\<lambda>e. map_option (\<lambda>p. (de_IsDir e, Name p))
            (entry_candidate lib env (packsDirectory pm) e)) entries"
proof (induction entries arbitrary: pm)
  case Nil
  show ?case by (simp add: map_filter_simps)
next
  case (Cons e es)
  show ?case
    using Cons.IH [of "scan_entry lib env pm e"]
    by (cases "entry_candidate lib env (packsDirectory pm) e")
       (simp_all add: scan_entry_candidate map_filter_simps add_pack_def found_in_log_append)
qed

lemma scan_root_candidate:
  "scan_root lib env pm =
     (case root_candidate lib env (packsDirectory pm) of
        None \<Rightarrow> pm
      | Some pack \<Rightarrow> add_pack pm pack (RootPackFound (Name pack)))"
  by (simp add: scan_root_def root_candidate_def split: sum.splits)

lemma scan_root_fields [simp]:
  "packsDirectory (scan_root lib env pm) = packsDirectory pm"
  "lastScanTime (scan_root lib env pm) = lastScanTime pm"
  "scanCooldown (scan_root lib env pm) = scanCooldown pm"
  "tempDir (scan_root lib env pm) = tempDir pm"
  by (simp_all add: scan_root_candidate add_pack_def split: option.splits)

lemma scanPacks_failure:
  assumes "os_ReadDir env (packsDirectory pm) = Inl err"
  shows "scanPacks lib env now pm =
     (Some (ReadDirFailed err),
      scan_root lib env
        (pm\<lparr>packs := Map.empty, logger := logger pm @ [ScanStarted (packsDirectory pm)]\<rparr>))"
  using assms by (simp add: scanPacks_def Let_def)

lemma scanPacks_success_packs:
  assumes "os_ReadDir env (packsDirectory pm) = Inr entries"
  shows "fst (scanPacks lib env now pm) = None"
    and "packs (snd (scanPacks lib env now pm)) =
           last_wins (scan_order lib env (packsDirectory pm) entries)"
    and "lastScanTime (snd (scanPacks lib env now pm)) = now"
    and "scanCooldown (snd (scanPacks lib env now pm)) = scanCooldown pm"
    and "packsDirectory (snd (scanPacks lib env now pm)) = packsDirectory pm"
  using assms
  by (simp_all add: scanPacks_def Let_def foldl_scan_entry_packs scan_order_def
      last_wins_append scan_root_candidate add_pack_def last_wins_def split: option.splits)


subsection \<open>Decimal formatting is injective\<close>

lemma digit_char_inj:
  assumes "n < 10" "m < 10" "digit_char n = digit_char m"
  shows "n = m"
proof -
  have "distinct ''0123456789''" by simp
  moreover have "n < length ''0123456789''" "m < length ''0123456789''"
    using assms by simp_all
  ultimately show ?thesis
    using assms(3) unfolding digit_char_def by (simp only: nth_eq_iff_index_eq)
qed

lemma digit_char_mem: "n < 10 \<Longrightarrow> digit_char n \<in> set ''0123456789''"
  unfolding digit_char_def by (rule nth_mem) simp

lemma dec_digits_set: "set (dec_digits n) \<subseteq> set ''0123456789''"
proof (induction n rule: dec_digits.induct)
  case (1 n)
  show ?case
  proof (cases "n < 10")
    case True
    then show ?thesis
      using digit_char_mem [of n] by (subst dec_digits.simps) simp
  next
    case False
    have "n mod 10 < 10" by simp
    then have "digit_char (n mod 10) \<in> set ''0123456789''"
      by (rule digit_char_mem)
    with False 1 show ?thesis
      by (subst dec_digits.simps) simp
  qed
qed

lemma dec_digits_not_Nil: "dec_digits n \<noteq> []"
  by (subst dec_digits.simps) simp

lemma dec_digits_inj: "dec_digits n = dec_digits m \<Longrightarrow> n = m"
proof (induction n arbitrary: m rule: dec_digits.induct)
  case (1 n)
  show ?case
  proof (cases "n < 10")
    case n: True
    show ?thesis
    proof (cases "m < 10")
      case True
      with n "1.prems" show ?thesis
        by (simp add: dec_digits.simps [of n] dec_digits.simps [of m] digit_char_inj)
    next
      case False
      with n "1.prems" show ?thesis
        using dec_digits_not_Nil [of "m div 10"]
        by (simp add: dec_digits.simps [of n] dec_digits.simps [of m] Cons_eq_append_conv)
    qed
  next
    case n: False
    show ?thesis
    proof (cases "m < 10")
      case True
      with n "1.prems" show ?thesis
        using dec_digits_not_Nil [of "n div 10"]
        by (simp add: dec_digits.simps [of n] dec_digits.simps [of m] append_eq_Cons_conv)
    next
      case False
      with n "1.prems" have eq: "dec_digits (n div 10) = dec_digits (m div 10)"
        and d: "digit_char (n mod 10) = digit_char (m mod 10)"
        by (simp_all add: dec_digits.simps [of n] dec_digits.simps [of m])
      from eq n have "n div 10 = m div 10" by (rule "1.IH" [rotated])
      moreover from d have "n mod 10 = m mod 10"
        by (intro digit_char_inj) simp_all
      ultimately show ?thesis
        by (metis div_mult_mod_eq)
    qed
  qed
qed

lemma dec_digits_no_minus: "dec_digits n \<noteq> CHR ''-'' # s"
proof
  assume "dec_digits n = CHR ''-'' # s"
  then have "CHR ''-'' \<in> set (dec_digits n)" by simp
  with dec_digits_set [of n] show False by auto
qed

lemma fmt_d_inj: "fmt_d i = fmt_d j \<Longrightarrow> i = j"
proof -
  assume eq: "fmt_d i = fmt_d j"
  consider "i < 0" "j < 0" | "i < 0" "0 \<le> j" | "0 \<le> i" "j < 0" | "0 \<le> i" "0 \<le> j"
    by linarith
  then show "i = j"
  proof cases
    case 1
    with eq have "nat (- i) = nat (- j)"
      by (simp add: fmt_d_def dec_digits_inj)
    with 1 show ?thesis by simp
  next
    case 2
    with eq have "dec_digits (nat j) = CHR ''-'' # dec_digits (nat (- i))"
      by (simp add: fmt_d_def)
    then show ?thesis
      using dec_digits_no_minus by blast
  next
    case 3
    with eq have "dec_digits (nat i) = CHR ''-'' # dec_digits (nat (- j))"
      by (simp add: fmt_d_def)
    then show ?thesis
      using dec_digits_no_minus by blast
  next
    case 4
    with eq have "nat i = nat j"
      by (simp add: fmt_d_def dec_digits_inj)
    with 4 show ?thesis by simp
  qed
qed

lemma temp_zip_path_eq_iff:
  "temp_zip_path pm1 name now1 = temp_zip_path pm2 name now2 \<longleftrightarrow>
     time_Unix now1 = time_Unix now2" if "tempDir pm1 = tempDir pm2"
proof
  assume "temp_zip_path pm1 name now1 = temp_zip_path pm2 name now2"
  with that have "fmt_d (sint (time_Unix now1)) = fmt_d (sint (time_Unix now2))"
    by (simp add: temp_zip_path_def filepath_Join_def)
  then have "sint (time_Unix now1) = sint (time_Unix now2)"
    by (rule fmt_d_inj)
  then show "time_Unix now1 = time_Unix now2"
    by (rule signed_word_eqI)
next
  assume "time_Unix now1 = time_Unix now2"
  with that show "temp_zip_path pm1 name now1 = temp_zip_path pm2 name now2"
    by (simp add: temp_zip_path_def)
qed

lemma CreateZip_path:
  "CreateZipFromDirectory env now pm dirPath packName = (Inr zipPath, pm') \<Longrightarrow>
     zipPath = temp_zip_path pm packName now"
  by (auto simp: CreateZipFromDirectory_def Let_def split: option.splits sum.splits)

subsection \<open>Fingerprints\<close>

lemma sort_cong_mset: "mset xs = mset ys \<Longrightarrow> sort xs = sort ys"
  by (rule properties_for_sort) simp_all

lemma hash_walk_ok:
  "walk_ok vs \<Longrightarrow> hash_walk d vs acc = Inr (acc @ map tuple_line (walk_tuples d vs))"
  by (induction vs arbitrary: acc rule: walk_ok.induct) (simp_all add: file_info_line_def)

lemma calculateDirectoryHash_ok:
  "walk_ok (filepath_Walk env d) \<Longrightarrow>
   calculateDirectoryHash lib env d =
     Inr (fmt_x (md5_Sum lib (strings_Join
        (sort (map tuple_line (walk_tuples d (filepath_Walk env d)))) [CHR 0x0A])))"
  by (simp add: calculateDirectoryHash_def hash_walk_ok)

lemma digest_mset:
  assumes "walk_ok (filepath_Walk env1 d1)" "walk_ok (filepath_Walk env2 d2)"
    and "mset (walk_tuples d1 (filepath_Walk env1 d1)) = mset (walk_tuples d2 (filepath_Walk env2 d2))"
  shows "\<exists>digest. calculateDirectoryHash lib env1 d1 = Inr digest
            \<and> calculateDirectoryHash lib env2 d2 = Inr digest"
proof -
  have "mset (map tuple_line (walk_tuples d1 (filepath_Walk env1 d1)))
      = mset (map tuple_line (walk_tuples d2 (filepath_Walk env2 d2)))"
    using assms(3) by (metis mset_map)
  then have "sort (map tuple_line (walk_tuples d1 (filepath_Walk env1 d1)))
      = sort (map tuple_line (walk_tuples d2 (filepath_Walk env2 d2)))"
    by (rule sort_cong_mset)
  then show ?thesis
    using assms(1,2) by (simp add: calculateDirectoryHash_ok)
qed

text \<open>
  Claim C2.  The directory fingerprint does not depend on the order in which
  the walk enumerates the files: two walks of a directory that report no
  error and yield the same tuples \<open>(relativePath, modTimeUnix, sizeBytes)\<close>,
  each as often, in any two orders, give the same hexadecimal digest.
\<close>

theorem fingerprint_order_invariant:
  assumes "walk_ok (filepath_Walk env1 dirPath)"
    and "walk_ok (filepath_Walk env2 dirPath)"
    and "mset (walk_tuples dirPath (filepath_Walk env1 dirPath)) =
         mset (walk_tuples dirPath (filepath_Walk env2 dirPath))"
  shows "\<exists>digest. calculateDirectoryHash lib env1 dirPath = Inr digest
            \<and> calculateDirectoryHash lib env2 dirPath = Inr digest"
  using assms by (rule digest_mset)

lemmas ex_defs = example_env_def example_lib_def manifest_bar_def manifest_foo_def
  no_such_file_def dir_info_def file_info_def Second_def


lemma bar_walk:
  "filepath_Walk example_env ''/packs/bar'' =
     [Visit ''/packs/bar'' dir_info,
      Visit ''/packs/bar/assets'' dir_info,
      Visit ''/packs/bar/assets/a.png'' (file_info 3 (1700000400 * Second)),
      Visit ''/packs/bar/pack.mcmeta'' (file_info 28 (1700000300 * Second))]"
  by (simp add: example_env_def)

lemma bar_tuples:
  "walk_tuples ''/packs/bar'' (filepath_Walk example_env ''/packs/bar'') =
     [(''assets/a.png'', 1700000400, 3), (''pack.mcmeta'', 1700000300, 28)]"
  by (simp add: bar_walk dir_info_def file_info_def filepath_Rel_def time_Unix_def Second_def)

lemma bar_tuples_rev:
  "walk_tuples ''/packs/bar'' (filepath_Walk reordered_env ''/packs/bar'') =
     [(''pack.mcmeta'', 1700000300, 28), (''assets/a.png'', 1700000400, 3)]"
  by (simp add: reordered_env_def bar_walk dir_info_def file_info_def filepath_Rel_def
      time_Unix_def Second_def)

theorem fingerprint_order_invariant_witness:
  "walk_ok (filepath_Walk example_env ''/packs/bar'')
   \<and> walk_ok (filepath_Walk reordered_env ''/packs/bar'')
   \<and> mset (walk_tuples ''/packs/bar'' (filepath_Walk example_env ''/packs/bar'')) =
       mset (walk_tuples ''/packs/bar'' (filepath_Walk reordered_env ''/packs/bar''))
   \<and> walk_tuples ''/packs/bar'' (filepath_Walk example_env ''/packs/bar'') \<noteq>
       walk_tuples ''/packs/bar'' (filepath_Walk reordered_env ''/packs/bar'')
   \<and> (\<exists>digest. calculateDirectoryHash example_lib example_env ''/packs/bar'' = Inr digest
         \<and> calculateDirectoryHash example_lib reordered_env ''/packs/bar'' = Inr digest)"
proof -
  have ok1: "walk_ok (filepath_Walk example_env ''/packs/bar'')"
    by (simp add: bar_walk)
  have ok2: "walk_ok (filepath_Walk reordered_env ''/packs/bar'')"
    by (simp add: reordered_env_def bar_walk)
  have perm: "mset (walk_tuples ''/packs/bar'' (filepath_Walk example_env ''/packs/bar'')) =
       mset (walk_tuples ''/packs/bar'' (filepath_Walk reordered_env ''/packs/bar''))"
    by (simp add: bar_tuples bar_tuples_rev)
  have differ: "walk_tuples ''/packs/bar'' (filepath_Walk example_env ''/packs/bar'') \<noteq>
       walk_tuples ''/packs/bar'' (filepath_Walk reordered_env ''/packs/bar'')"
    by (simp add: bar_tuples bar_tuples_rev)
  from fingerprint_order_invariant [OF ok1 ok2 perm, of example_lib] ok1 ok2 perm differ
  show ?thesis by blast
qed

text \<open>
  Claim C8.  The directory fingerprint is a function of the metadata only:
  two trees, in any two file systems, whose walks report no error and yield
  the same set of tuples \<open>(relativePath, modTimeUnix, sizeBytes)\<close>, one tuple
  per path, have the same digest, whatever the files contain (what
  \<open>os_Open\<close> and \<open>os_ReadFile\<close> return is not constrained).
\<close>

theorem fingerprint_ignores_contents:
  assumes "walk_ok (filepath_Walk env1 dir1)"
    and "walk_ok (filepath_Walk env2 dir2)"
    and "set (walk_tuples dir1 (filepath_Walk env1 dir1)) =
         set (walk_tuples dir2 (filepath_Walk env2 dir2))"
    and "distinct (map fst (walk_tuples dir1 (filepath_Walk env1 dir1)))"
    and "distinct (map fst (walk_tuples dir2 (filepath_Walk env2 dir2)))"
  shows "\<exists>digest. calculateDirectoryHash lib env1 dir1 = Inr digest
            \<and> calculateDirectoryHash lib env2 dir2 = Inr digest"
proof -
  have "distinct (walk_tuples dir1 (filepath_Walk env1 dir1))"
    and "distinct (walk_tuples dir2 (filepath_Walk env2 dir2))"
    using assms(4,5) by (simp_all add: distinct_map)
  with assms(3) have "mset (walk_tuples dir1 (filepath_Walk env1 dir1)) =
      mset (walk_tuples dir2 (filepath_Walk env2 dir2))"
    by (simp add: set_eq_iff_mset_eq_distinct)
  with assms(1,2) show ?thesis
    by (rule digest_mset)
qed

lemma edited_tuples:
  "walk_tuples ''/srv/bar'' (filepath_Walk edited_env ''/srv/bar'') =
     [(''pack.mcmeta'', 1700000300, 28), (''assets/a.png'', 1700000400, 3)]"
  by (simp add: edited_env_def dir_info_def file_info_def filepath_Rel_def
      time_Unix_def Second_def Millisecond_def)

theorem fingerprint_ignores_contents_witness:
  "walk_ok (filepath_Walk example_env ''/packs/bar'')
   \<and> walk_ok (filepath_Walk edited_env ''/srv/bar'')
   \<and> set (walk_tuples ''/packs/bar'' (filepath_Walk example_env ''/packs/bar'')) =
       set (walk_tuples ''/srv/bar'' (filepath_Walk edited_env ''/srv/bar''))
   \<and> distinct (map fst (walk_tuples ''/packs/bar'' (filepath_Walk example_env ''/packs/bar'')))
   \<and> distinct (map fst (walk_tuples ''/srv/bar'' (filepath_Walk edited_env ''/srv/bar'')))
   \<and> os_Open example_env ''/packs/bar/assets/a.png'' = Inr (Inr ''png'')
   \<and> os_Open edited_env ''/srv/bar/assets/a.png'' = Inr (Inr ''gif'')
   \<and> (\<exists>digest. calculateDirectoryHash example_lib example_env ''/packs/bar'' = Inr digest
         \<and> calculateDirectoryHash example_lib edited_env ''/srv/bar'' = Inr digest)"
proof -
  have ok1: "walk_ok (filepath_Walk example_env ''/packs/bar'')"
    by (simp add: bar_walk)
  have ok2: "walk_ok (filepath_Walk edited_env ''/srv/bar'')"
    by (simp add: edited_env_def)
  have same: "set (walk_tuples ''/packs/bar'' (filepath_Walk example_env ''/packs/bar'')) =
       set (walk_tuples ''/srv/bar'' (filepath_Walk edited_env ''/srv/bar''))"
    by (simp add: bar_tuples edited_tuples insert_commute)
  have d1: "distinct (map fst (walk_tuples ''/packs/bar'' (filepath_Walk example_env ''/packs/bar'')))"
    by (simp add: bar_tuples)
  have d2: "distinct (map fst (walk_tuples ''/srv/bar'' (filepath_Walk edited_env ''/srv/bar'')))"
    by (simp add: edited_tuples)
  have c1: "os_Open example_env ''/packs/bar/assets/a.png'' = Inr (Inr ''png'')"
    by (simp add: example_env_def)
  have c2: "os_Open edited_env ''/srv/bar/assets/a.png'' = Inr (Inr ''gif'')"
    by (simp add: edited_env_def)
  from fingerprint_ignores_contents [OF ok1 ok2 same d1 d2, of example_lib] ok1 ok2 same d1 d2 c1 c2
  show ?thesis by blast
qed

subsection \<open>The example directory, evaluated\<close>

lemma example_alpha:
  "loadZipPack example_lib example_env ''/packs/alpha.zip'' =
     Inr \<lparr>Name = ''alpha'', Path = ''/packs/alpha.zip'',
          Description = ''Resource Pack: alpha'', PackFormat = 22, Size = 120,
          Hash = fmt_x (replicate 16 8), LastModified = 1700000100 * Second,
          IsDirectory = False\<rparr>"
  by (simp add: loadZipPack_def zip_pack_info_def calculateFileHash_def ex_defs
      filepath_Base_def strings_TrimSuffix_def strings_HasSuffix_def Let_def)

lemma example_foo:
  "loadZipPack example_lib example_env ''/packs/foo.zip'' =
     Inr \<lparr>Name = ''foo'', Path = ''/packs/foo.zip'', Description = ''Foo'',
          PackFormat = 15, Size = 200, Hash = fmt_x (replicate 16 6),
          LastModified = 1700000200 * Second, IsDirectory = False\<rparr>"
  by (simp add: loadZipPack_def zip_pack_info_def calculateFileHash_def ex_defs
      parsePackMcmeta_def json_Unmarshal_def int_of_float64_def
      filepath_Base_def strings_TrimSuffix_def strings_HasSuffix_def Let_def)

lemma example_bar:
  "loadDirectoryPack example_lib example_env ''/packs/bar'' =
     Inr \<lparr>Name = ''bar'', Path = ''/packs/bar'', Description = [],
          PackFormat = 22, Size = 31, Hash = fmt_x (replicate 16 51),
          LastModified = 1700000000 * Second, IsDirectory = True\<rparr>"
  by (simp add: loadDirectoryPack_def dir_pack_info_def calculateDirectorySize_def
      calculateDirectoryHash_def ex_defs parsePackMcmeta_def json_Unmarshal_def
      filepath_Join_def file_info_line_def filepath_Rel_def time_Unix_def fmt_d_def
      dec_digits.simps digit_char_def filepath_Base_def Let_def)

lemma example_listing:
  "os_ReadDir example_env ''/packs'' =
     Inr [\<lparr>de_Name = ''alpha.zip'', de_IsDir = False\<rparr>,
          \<lparr>de_Name = ''bar'', de_IsDir = True\<rparr>,
          \<lparr>de_Name = ''empty'', de_IsDir = True\<rparr>,
          \<lparr>de_Name = ''foo.zip'', de_IsDir = False\<rparr>,
          \<lparr>de_Name = ''notes.txt'', de_IsDir = False\<rparr>]"
  by (simp add: example_env_def)

lemma example_is_pack_dir:
  "\<not> isResourcePackDirectory example_env ''/packs''"
  "isResourcePackDirectory example_env ''/packs/bar''"
  "\<not> isResourcePackDirectory example_env ''/packs/empty''"
  by (simp_all add: isResourcePackDirectory_def filepath_Join_def example_env_def
      no_such_file_def)

lemma example_candidates:
  "root_candidate example_lib example_env ''/packs'' = None"
  "entry_candidate example_lib example_env ''/packs'' \<lparr>de_Name = ''alpha.zip'', de_IsDir = False\<rparr>
     = Some (projr (loadZipPack example_lib example_env ''/packs/alpha.zip''))"
  "entry_candidate example_lib example_env ''/packs'' \<lparr>de_Name = ''bar'', de_IsDir = True\<rparr>
     = Some (projr (loadDirectoryPack example_lib example_env ''/packs/bar''))"
  "entry_candidate example_lib example_env ''/packs'' \<lparr>de_Name = ''empty'', de_IsDir = True\<rparr>
     = None"
  "entry_candidate example_lib example_env ''/packs'' \<lparr>de_Name = ''foo.zip'', de_IsDir = False\<rparr>
     = Some (projr (loadZipPack example_lib example_env ''/packs/foo.zip''))"
  "entry_candidate example_lib example_env ''/packs'' \<lparr>de_Name = ''notes.txt'', de_IsDir = False\<rparr>
     = None"
       apply (simp add: root_candidate_def example_is_pack_dir)
      apply (simp add: entry_candidate_def filepath_Join_def strings_HasSuffix_def example_alpha)
     apply (simp add: entry_candidate_def example_is_pack_dir [unfolded filepath_Join_def]
      filepath_Join_def example_bar)
     apply (simp add: entry_candidate_def example_is_pack_dir filepath_Join_def)
   apply (simp add: entry_candidate_def filepath_Join_def strings_HasSuffix_def example_foo)
  apply (simp add: entry_candidate_def filepath_Join_def strings_HasSuffix_def)
  done


lemma example_scan_order:
  "scan_order example_lib example_env ''/packs''
     [\<lparr>de_Name = ''alpha.zip'', de_IsDir = False\<rparr>,
      \<lparr>de_Name = ''bar'', de_IsDir = True\<rparr>,
      \<lparr>de_Name = ''empty'', de_IsDir = True\<rparr>,
      \<lparr>de_Name = ''foo.zip'', de_IsDir = False\<rparr>,
      \<lparr>de_Name = ''notes.txt'', de_IsDir = False\<rparr>] =
   [projr (loadZipPack example_lib example_env ''/packs/alpha.zip''),
    projr (loadDirectoryPack example_lib example_env ''/packs/bar''),
    projr (loadZipPack example_lib example_env ''/packs/foo.zip'')]"
  by (simp add: scan_order_def example_candidates map_filter_simps)

lemma indexed_pm_packs:
  "packs indexed_pm =
     [''alpha'' \<mapsto> projr (loadZipPack example_lib example_env ''/packs/alpha.zip''),
      ''bar'' \<mapsto> projr (loadDirectoryPack example_lib example_env ''/packs/bar''),
      ''foo'' \<mapsto> projr (loadZipPack example_lib example_env ''/packs/foo.zip'')]"
proof -
  have "os_ReadDir example_env (packsDirectory example_pm) = Inr
     [\<lparr>de_Name = ''alpha.zip'', de_IsDir = False\<rparr>,
      \<lparr>de_Name = ''bar'', de_IsDir = True\<rparr>,
      \<lparr>de_Name = ''empty'', de_IsDir = True\<rparr>,
      \<lparr>de_Name = ''foo.zip'', de_IsDir = False\<rparr>,
      \<lparr>de_Name = ''notes.txt'', de_IsDir = False\<rparr>]"
    by (simp add: example_pm_def example_listing)
  from scanPacks_success_packs(2) [OF this] show ?thesis
    unfolding indexed_pm_def
    by (simp add: example_pm_def example_scan_order last_wins_def
        example_alpha example_bar example_foo)
qed

lemma indexed_pm_fields:
  "packsDirectory indexed_pm = ''/packs''"
  "lastScanTime indexed_pm = 1700001000 * Second"
  "scanCooldown indexed_pm = 2 * Second"
  using scanPacks_success_packs(3,4,5) [of example_env example_pm _ example_lib "1700001000 * Second"]
  by (simp_all add: indexed_pm_def example_pm_def example_listing)

subsection \<open>A failed scan\<close>

text \<open>
  Claim C1 as stated fails.  The manager has indexed \<open>alpha\<close>, \<open>bar\<close> and \<open>foo\<close>;
  the next scan cannot read \<open>/packs\<close>.  It returns the error, and the index it
  leaves is empty, not the previous one: \<open>scanPacks\<close> resets the index before it
  reads the directory.
\<close>

theorem failed_scan_keeps_index_counterexample:
  "packs indexed_pm ''foo'' \<noteq> None
   \<and> os_ReadDir unreadable_env (packsDirectory indexed_pm) = Inl permission_denied
   \<and> fst (scanPacks example_lib unreadable_env (1700002000 * Second) indexed_pm)
       = Some (ReadDirFailed permission_denied)
   \<and> packs (snd (scanPacks example_lib unreadable_env (1700002000 * Second) indexed_pm))
       = Map.empty
   \<and> packs (snd (scanPacks example_lib unreadable_env (1700002000 * Second) indexed_pm))
       \<noteq> packs indexed_pm"
proof -
  have rd: "os_ReadDir unreadable_env (packsDirectory indexed_pm) = Inl permission_denied"
    by (simp add: unreadable_env_def)
  have "\<not> isResourcePackDirectory unreadable_env ''/packs''"
    by (simp add: isResourcePackDirectory_def filepath_Join_def unreadable_env_def
        example_env_def no_such_file_def)
  then have emp: "packs (snd (scanPacks example_lib unreadable_env (1700002000 * Second) indexed_pm))
       = Map.empty"
    by (simp add: scanPacks_failure [OF rd] scan_root_def indexed_pm_fields)
  have foo: "packs indexed_pm ''foo'' \<noteq> None"
    by (simp add: indexed_pm_packs)
  from emp foo
  have ne: "packs (snd (scanPacks example_lib unreadable_env (1700002000 * Second) indexed_pm))
       \<noteq> packs indexed_pm"
    by (metis (no_types))
  have err: "fst (scanPacks example_lib unreadable_env (1700002000 * Second) indexed_pm)
       = Some (ReadDirFailed permission_denied)"
    by (simp add: scanPacks_failure [OF rd])
  from foo rd err emp ne show ?thesis
    by (intro conjI)
qed

text \<open>
  Claim C1, amended.  When the root directory cannot be read, \<open>scanPacks\<close>
  returns the error of \<open>os.ReadDir\<close>, wrapped; the index it leaves holds the
  root directory's own pack if that was loaded and nothing else (so it is
  empty when the root is not a pack), and \<open>lastScanTime\<close> keeps its value.
\<close>

theorem failed_scan_result:
  assumes "os_ReadDir env (packsDirectory pm) = Inl err"
  shows "fst (scanPacks lib env now pm) = Some (ReadDirFailed err)
       \<and> packs (snd (scanPacks lib env now pm)) =
           (case root_candidate lib env (packsDirectory pm) of
              None \<Rightarrow> Map.empty
            | Some pack \<Rightarrow> [Name pack \<mapsto> pack])
       \<and> lastScanTime (snd (scanPacks lib env now pm)) = lastScanTime pm"
  by (simp add: scanPacks_failure [OF assms] scan_root_candidate add_pack_def
      split: option.splits)

theorem failed_scan_result_witness:
  "os_ReadDir unreadable_env (packsDirectory indexed_pm) = Inl permission_denied
   \<and> fst (scanPacks example_lib unreadable_env (1700002000 * Second) indexed_pm)
       = Some (ReadDirFailed permission_denied)
   \<and> root_candidate example_lib unreadable_env (packsDirectory indexed_pm) = None
   \<and> packs (snd (scanPacks example_lib unreadable_env (1700002000 * Second) indexed_pm))
       = Map.empty
   \<and> lastScanTime (snd (scanPacks example_lib unreadable_env (1700002000 * Second) indexed_pm))
       = 1700001000 * Second"
proof -
  have rd: "os_ReadDir unreadable_env (packsDirectory indexed_pm) = Inl permission_denied"
    by (simp add: unreadable_env_def)
  have rc: "root_candidate example_lib unreadable_env (packsDirectory indexed_pm) = None"
    by (simp add: root_candidate_def isResourcePackDirectory_def filepath_Join_def
        unreadable_env_def example_env_def no_such_file_def indexed_pm_fields)
  from failed_scan_result [OF rd, of example_lib "1700002000 * Second"] rd rc
  show ?thesis
    by (simp add: indexed_pm_fields)
qed


subsection \<open>The order of a scan\<close>

lemma last_wins_lookup:
  "last_wins ps name =
     (if filter (\<lambda>pack. Name pack = name) ps = [] then None
      else Some (last (filter (\<lambda>pack. Name pack = name) ps)))"
proof (induction ps rule: rev_induct)
  case Nil
  show ?case by (simp add: last_wins_def)
next
  case (snoc p ps)
  then show ?case
    by (cases "Name p = name") (simp_all add: last_wins_snoc)
qed

lemma loadDirectoryPack_fields:
  "loadDirectoryPack lib env dirPath = Inr pack \<Longrightarrow>
     IsDirectory pack \<and> Path pack = dirPath \<and> Name pack = filepath_Base dirPath"
  by (auto simp: loadDirectoryPack_def Let_def split: sum.splits)

lemma loadZipPack_fields:
  "loadZipPack lib env packPath = Inr pack \<Longrightarrow>
     \<not> IsDirectory pack \<and> Path pack = packPath
       \<and> Name pack = strings_TrimSuffix (filepath_Base packPath) ''.zip''"
  by (auto simp: loadZipPack_def Let_def split: sum.splits)

lemma entry_candidate_IsDirectory:
  "entry_candidate lib env rootDir e = Some pack \<Longrightarrow> IsDirectory pack = de_IsDir e"
  by (auto simp: entry_candidate_def Let_def split: if_splits sum.splits
      dest: loadDirectoryPack_fields loadZipPack_fields)

lemma root_candidate_IsDirectory:
  "root_candidate lib env rootDir = Some pack \<Longrightarrow> IsDirectory pack"
  by (auto simp: root_candidate_def split: if_splits sum.splits
      dest: loadDirectoryPack_fields)

lemma map_filter_found:
  "List.map_filter (\<lambda>e. map_option (\<lambda>p. (de_IsDir e, Name p)) (entry_candidate lib env rootDir e))
     entries =
   map found_of_pack (List.map_filter (entry_candidate lib env rootDir) entries)"
proof (induction entries)
  case Nil
  show ?case by (simp add: map_filter_simps)
next
  case (Cons e es)
  then show ?case
    by (cases "entry_candidate lib env rootDir e")
       (simp_all add: map_filter_simps entry_candidate_IsDirectory found_of_pack_def)
qed

lemma scanPacks_success_found:
  assumes "os_ReadDir env (packsDirectory pm) = Inr entries"
  shows "found_in_log (logger (snd (scanPacks lib env now pm))) =
     found_in_log (logger pm)
       @ map found_of_pack (scan_order lib env (packsDirectory pm) entries)"
proof -
  let ?pm1 = "pm\<lparr>packs := Map.empty, logger := logger pm @ [ScanStarted (packsDirectory pm)]\<rparr>"
  have root: "found_in_log (logger (scan_root lib env ?pm1)) =
      found_in_log (logger pm)
        @ map found_of_pack
            (case root_candidate lib env (packsDirectory pm) of None \<Rightarrow> [] | Some pack \<Rightarrow> [pack])"
    by (simp add: scan_root_candidate add_pack_def found_in_log_append
        root_candidate_IsDirectory found_of_pack_def split: option.splits)
  have "found_in_log (logger (snd (scanPacks lib env now pm))) =
      found_in_log (logger (foldl (scan_entry lib env) (scan_root lib env ?pm1) entries))"
    using assms by (simp add: scanPacks_def Let_def found_in_log_append)
  also have "\<dots> = found_in_log (logger (scan_root lib env ?pm1))
      @ map found_of_pack
          (List.map_filter (entry_candidate lib env (packsDirectory pm)) entries)"
    by (simp add: foldl_scan_entry_found map_filter_found)
  finally show ?thesis
    by (simp add: root scan_order_def)
qed

text \<open>
  Claim C5 as stated fails.  In \<open>/packs\<close> the listing puts the archive
  \<open>alpha.zip\<close> before the subdirectory \<open>bar\<close>; the scan loads \<open>alpha\<close> first,
  while the order "all subdirectories, then all archive files" loads \<open>bar\<close>
  first.
\<close>

theorem subdirectories_before_archives_counterexample:
  "found_in_log (logger (snd (scanPacks example_lib example_env (1700001000 * Second) example_pm)))
     = [(False, ''alpha''), (True, ''bar''), (False, ''foo'')]
   \<and> map found_of_pack (claimed_scan_order example_lib example_env ''/packs''
         [\<lparr>de_Name = ''alpha.zip'', de_IsDir = False\<rparr>,
          \<lparr>de_Name = ''bar'', de_IsDir = True\<rparr>,
          \<lparr>de_Name = ''empty'', de_IsDir = True\<rparr>,
          \<lparr>de_Name = ''foo.zip'', de_IsDir = False\<rparr>,
          \<lparr>de_Name = ''notes.txt'', de_IsDir = False\<rparr>])
     = [(True, ''bar''), (False, ''alpha''), (False, ''foo'')]
   \<and> os_ReadDir example_env ''/packs'' =
       Inr [\<lparr>de_Name = ''alpha.zip'', de_IsDir = False\<rparr>,
            \<lparr>de_Name = ''bar'', de_IsDir = True\<rparr>,
            \<lparr>de_Name = ''empty'', de_IsDir = True\<rparr>,
            \<lparr>de_Name = ''foo.zip'', de_IsDir = False\<rparr>,
            \<lparr>de_Name = ''notes.txt'', de_IsDir = False\<rparr>]"
proof -
  have rd: "os_ReadDir example_env (packsDirectory example_pm) = Inr
     [\<lparr>de_Name = ''alpha.zip'', de_IsDir = False\<rparr>,
      \<lparr>de_Name = ''bar'', de_IsDir = True\<rparr>,
      \<lparr>de_Name = ''empty'', de_IsDir = True\<rparr>,
      \<lparr>de_Name = ''foo.zip'', de_IsDir = False\<rparr>,
      \<lparr>de_Name = ''notes.txt'', de_IsDir = False\<rparr>]"
    by (simp add: example_pm_def example_listing)
  have code: "found_in_log (logger (snd (scanPacks example_lib example_env (1700001000 * Second) example_pm)))
     = [(False, ''alpha''), (True, ''bar''), (False, ''foo'')]"
    unfolding scanPacks_success_found [OF rd]
    by (simp add: example_pm_def example_scan_order found_of_pack_def
        example_alpha example_bar example_foo)
  have spec: "map found_of_pack (claimed_scan_order example_lib example_env ''/packs''
         [\<lparr>de_Name = ''alpha.zip'', de_IsDir = False\<rparr>,
          \<lparr>de_Name = ''bar'', de_IsDir = True\<rparr>,
          \<lparr>de_Name = ''empty'', de_IsDir = True\<rparr>,
          \<lparr>de_Name = ''foo.zip'', de_IsDir = False\<rparr>,
          \<lparr>de_Name = ''notes.txt'', de_IsDir = False\<rparr>])
     = [(True, ''bar''), (False, ''alpha''), (False, ''foo'')]"
    by (simp add: claimed_scan_order_def example_candidates map_filter_simps found_of_pack_def
        example_alpha example_bar example_foo)
  from code spec example_listing show ?thesis
    by (intro conjI)
qed

lemma collision_bar_zip:
  "loadZipPack example_lib collision_env ''/packs/bar.zip'' =
     Inr \<lparr>Name = ''bar'', Path = ''/packs/bar.zip'',
          Description = ''Resource Pack: bar'', PackFormat = 22, Size = 300,
          Hash = fmt_x (replicate 16 6), LastModified = 1700000500 * Second,
          IsDirectory = False\<rparr>"
  by (simp add: loadZipPack_def zip_pack_info_def calculateFileHash_def collision_env_def ex_defs
      filepath_Base_def strings_TrimSuffix_def strings_HasSuffix_def Let_def)

lemma collision_bar:
  "loadDirectoryPack example_lib collision_env ''/packs/bar'' =
     loadDirectoryPack example_lib example_env ''/packs/bar''"
  by (simp add: loadDirectoryPack_def dir_pack_info_def calculateDirectorySize_def
      calculateDirectoryHash_def collision_env_def filepath_Join_def example_env_def)

lemma collision_scan_order:
  "scan_order example_lib collision_env ''/packs''
     [\<lparr>de_Name = ''bar'', de_IsDir = True\<rparr>, \<lparr>de_Name = ''bar.zip'', de_IsDir = False\<rparr>] =
   [projr (loadDirectoryPack example_lib example_env ''/packs/bar''),
    projr (loadZipPack example_lib collision_env ''/packs/bar.zip'')]"
proof -
  have "\<not> isResourcePackDirectory collision_env ''/packs''"
    and "isResourcePackDirectory collision_env ''/packs/bar''"
    by (simp_all add: isResourcePackDirectory_def filepath_Join_def collision_env_def
        example_env_def no_such_file_def)
  then show ?thesis
    by (simp add: scan_order_def root_candidate_def entry_candidate_def map_filter_simps
        filepath_Join_def strings_HasSuffix_def collision_bar collision_bar_zip example_bar)
qed

text \<open>
  Claim C5, amended.  A scan that reads the root directory loads the root
  directory first and then the entries of the listing in the order of the
  listing, subdirectories and archives interleaved as listed (\<open>scan_order\<close>);
  the packs it reports as found are those, in that order, and under every name
  the index holds the last pack of that name in that order.
\<close>

theorem scan_order_last_wins:
  assumes "os_ReadDir env (packsDirectory pm) = Inr entries"
  shows "found_in_log (logger (snd (scanPacks lib env now pm))) =
           found_in_log (logger pm)
             @ map found_of_pack
                 (scan_order lib env (packsDirectory pm) entries)
       \<and> packs (snd (scanPacks lib env now pm)) name =
           (if filter (\<lambda>pack. Name pack = name)
                 (scan_order lib env (packsDirectory pm) entries) = [] then None
            else Some (last (filter (\<lambda>pack. Name pack = name)
                 (scan_order lib env (packsDirectory pm) entries))))"
  using scanPacks_success_found [OF assms] scanPacks_success_packs(2) [OF assms]
  by (simp add: last_wins_lookup)


theorem scan_order_last_wins_witness:
  "os_ReadDir collision_env (packsDirectory example_pm) =
     Inr [\<lparr>de_Name = ''bar'', de_IsDir = True\<rparr>, \<lparr>de_Name = ''bar.zip'', de_IsDir = False\<rparr>]
   \<and> found_in_log (logger (snd (scanPacks example_lib collision_env (1700001000 * Second) example_pm)))
       = [(True, ''bar''), (False, ''bar'')]
   \<and> packs (snd (scanPacks example_lib collision_env (1700001000 * Second) example_pm)) ''bar''
       = Some \<lparr>Name = ''bar'', Path = ''/packs/bar.zip'',
          Description = ''Resource Pack: bar'', PackFormat = 22, Size = 300,
          Hash = fmt_x (replicate 16 6), LastModified = 1700000500 * Second,
          IsDirectory = False\<rparr>"
proof -
  have rd: "os_ReadDir collision_env (packsDirectory example_pm) =
     Inr [\<lparr>de_Name = ''bar'', de_IsDir = True\<rparr>, \<lparr>de_Name = ''bar.zip'', de_IsDir = False\<rparr>]"
    by (simp add: collision_env_def example_pm_def)
  from scan_order_last_wins [OF rd, of example_lib "1700001000 * Second" "''bar''"] rd
  show ?thesis
    by (simp add: example_pm_def collision_scan_order found_of_pack_def
        collision_bar_zip example_bar)
qed

subsection \<open>Temporary archives\<close>

lemma example_zip_walk:
  "zip_walk example_env ''/packs/bar'' (filepath_Walk example_env ''/packs/bar'') [] =
     Inr [(''assets/a.png'', ''png''), (''pack.mcmeta'', manifest_bar)]"
  by (simp add: bar_walk dir_info_def file_info_def filepath_Rel_def example_env_def)

lemma example_CreateZip:
  "CreateZipFromDirectory example_env now pm ''/packs/bar'' ''bar'' =
     (Inr (temp_zip_path pm ''bar'' now),
      pm\<lparr>logger := logger pm @ [TempZipCreated (temp_zip_path pm ''bar'' now)]\<rparr>)"
proof -
  have "os_Create example_env (temp_zip_path pm ''bar'' now) = None"
    by (simp add: example_env_def)
  then show ?thesis
    by (simp add: CreateZipFromDirectory_def Let_def example_zip_walk)
qed

text \<open>
  Claim C4.  The name of the temporary archive carries \<open>time.Now().Unix()\<close> to
  tell one call from another, but that is a count of whole seconds: two calls
  for the pack \<open>bar\<close>, half a second apart within the same Unix second, return
  the same path, where the claim asks for distinct ones.
\<close>

theorem temp_zip_same_second_collision:
  "fst (CreateZipFromDirectory example_env (1700000500 * Second + 200 * Millisecond)
          example_pm ''/packs/bar'' ''bar'')
     = Inr ''/tmp/resourcepack_server/bar_1700000500.zip''
   \<and> fst (CreateZipFromDirectory example_env (1700000500 * Second + 700 * Millisecond)
          (snd (CreateZipFromDirectory example_env (1700000500 * Second + 200 * Millisecond)
                  example_pm ''/packs/bar'' ''bar''))
          ''/packs/bar'' ''bar'')
     = Inr ''/tmp/resourcepack_server/bar_1700000500.zip''"
  by (simp add: example_CreateZip temp_zip_path_def filepath_Join_def example_pm_def
      time_Unix_def Second_def Millisecond_def fmt_d_def dec_digits.simps digit_char_def)

subsection \<open>Manual rescans\<close>

lemma scans_started_add_pack:
  "\<not> is_ScanStarted msg \<Longrightarrow> scans_started (add_pack pm pack msg) = scans_started pm"
  by (simp add: scans_started_def add_pack_def)

lemma scans_started_scan_entry [simp]:
  "scans_started (scan_entry lib env pm e) = scans_started pm"
  by (simp add: scan_entry_candidate scans_started_add_pack split: option.splits)

lemma scans_started_foldl [simp]:
  "scans_started (foldl (scan_entry lib env) pm es) = scans_started pm"
  by (induction es arbitrary: pm) simp_all

lemma scans_started_scan_root [simp]:
  "scans_started (scan_root lib env pm) = scans_started pm"
  by (simp add: scan_root_candidate scans_started_add_pack split: option.splits)

lemma scans_started_logger_update:
  "scans_started (pm\<lparr>logger := logger pm @ es\<rparr>) =
     scans_started pm + length (filter is_ScanStarted es)"
  by (simp add: scans_started_def)

lemma scans_started_scanPacks:
  "scans_started (snd (scanPacks lib env now pm)) = Suc (scans_started pm)"
proof -
  let ?pm1 = "pm\<lparr>packs := Map.empty, logger := logger pm @ [ScanStarted (packsDirectory pm)]\<rparr>"
  have "scans_started ?pm1 = Suc (scans_started pm)"
    by (simp add: scans_started_def)
  then have start: "scans_started (scan_root lib env ?pm1) = Suc (scans_started pm)"
    by (simp only: scans_started_scan_root)
  show ?thesis
  proof (cases "os_ReadDir env (packsDirectory pm)")
    case (Inl err)
    then show ?thesis
      using start by (simp add: scanPacks_failure)
  next
    case (Inr entries)
    let ?pm3 = "foldl (scan_entry lib env) (scan_root lib env ?pm1) entries"
    have "scans_started ?pm3 = Suc (scans_started pm)"
      using start by simp
    then have "length (filter is_ScanStarted (logger ?pm3)) = Suc (scans_started pm)"
      by (simp add: scans_started_def)
    with Inr show ?thesis
      by (simp add: scanPacks_def Let_def scans_started_def)
  qed
qed


lemma indexed_pm_scans: "scans_started indexed_pm = 1"
  using scans_started_scanPacks [of example_lib example_env "1700001000 * Second" example_pm]
  by (simp add: indexed_pm_def) (simp add: scans_started_def example_pm_def)

text \<open>
  Claim C7.  A manual rescan is the scan itself, with no cooldown check.  For
  every value of \<open>lastScanTime\<close> and \<open>scanCooldown\<close>, \<open>RescanPacks\<close> (and the
  handler that calls it) starts a scan; when the root directory can be read
  it returns no error, rebuilds the whole index from the directory (the root
  directory and every entry of the listing, the last pack of a name staying)
  and sets \<open>lastScanTime\<close> to the time of this scan; when the directory cannot
  be read it returns that error.  Neither \<open>lastScanTime\<close> nor \<open>scanCooldown\<close>
  has any influence on the error or on the index.
\<close>

theorem manual_rescan_ignores_cooldown:
  "RescanPacks lib env now pm = scanPacks lib env now pm
   \<and> scans_started (snd (RescanPacks lib env now pm)) = Suc (scans_started pm)
   \<and> scans_started (snd (rescanPacksHandler lib env now pm)) = Suc (scans_started pm)
   \<and> snd (rescanPacksHandler lib env now pm) = snd (RescanPacks lib env now pm)
   \<and> (os_ReadDir env (packsDirectory pm) = Inr entries \<longrightarrow>
        fst (RescanPacks lib env now pm) = None
        \<and> packs (snd (RescanPacks lib env now pm)) =
            last_wins (scan_order lib env (packsDirectory pm) entries)
        \<and> lastScanTime (snd (RescanPacks lib env now pm)) = now)
   \<and> (os_ReadDir env (packsDirectory pm) = Inl err \<longrightarrow>
        fst (RescanPacks lib env now pm) = Some (ReadDirFailed err))
   \<and> fst (RescanPacks lib env now (pm\<lparr>lastScanTime := t, scanCooldown := c\<rparr>))
       = fst (RescanPacks lib env now pm)
   \<and> packs (snd (RescanPacks lib env now (pm\<lparr>lastScanTime := t, scanCooldown := c\<rparr>)))
       = packs (snd (RescanPacks lib env now pm))"
proof -
  let ?pm' = "pm\<lparr>lastScanTime := t, scanCooldown := c\<rparr>"
  have same: "fst (scanPacks lib env now ?pm') = fst (scanPacks lib env now pm)
      \<and> packs (snd (scanPacks lib env now ?pm')) = packs (snd (scanPacks lib env now pm))"
  proof (cases "os_ReadDir env (packsDirectory pm)")
    case (Inl err)
    then have "os_ReadDir env (packsDirectory ?pm') = Inl err" by simp
    from scanPacks_failure [OF this] scanPacks_failure [OF Inl] show ?thesis
      by (simp add: scan_root_candidate add_pack_def split: option.splits)
  next
    case (Inr entries)
    then have "os_ReadDir env (packsDirectory ?pm') = Inr entries" by simp
    from scanPacks_success_packs(1,2) [OF this] scanPacks_success_packs(1,2) [OF Inr]
    show ?thesis by simp
  qed
  have rebuilt: "os_ReadDir env (packsDirectory pm) = Inr entries \<longrightarrow>
        fst (scanPacks lib env now pm) = None
        \<and> packs (snd (scanPacks lib env now pm)) =
            last_wins (scan_order lib env (packsDirectory pm) entries)
        \<and> lastScanTime (snd (scanPacks lib env now pm)) = now"
    using scanPacks_success_packs(1,2,3) [of env pm entries lib now] by blast
  have failed: "os_ReadDir env (packsDirectory pm) = Inl err \<longrightarrow>
        fst (scanPacks lib env now pm) = Some (ReadDirFailed err)"
    by (simp add: scanPacks_failure)
  from same rebuilt failed show ?thesis
    by (simp add: RescanPacks_def rescanPacksHandler_def scans_started_scanPacks)
qed

theorem manual_rescan_ignores_cooldown_witness:
  "time_Sub (1700001000 * Second + 10 * Millisecond) (lastScanTime indexed_pm)
     < scanCooldown indexed_pm
   \<and> packs indexed_pm ''alpha'' \<noteq> None
   \<and> os_ReadDir collision_env (packsDirectory indexed_pm) =
       Inr [\<lparr>de_Name = ''bar'', de_IsDir = True\<rparr>, \<lparr>de_Name = ''bar.zip'', de_IsDir = False\<rparr>]
   \<and> fst (RescanPacks example_lib collision_env (1700001000 * Second + 10 * Millisecond)
           indexed_pm) = None
   \<and> packs (snd (RescanPacks example_lib collision_env (1700001000 * Second + 10 * Millisecond)
           indexed_pm)) ''bar''
       = Some \<lparr>Name = ''bar'', Path = ''/packs/bar.zip'',
          Description = ''Resource Pack: bar'', PackFormat = 22, Size = 300,
          Hash = fmt_x (replicate 16 6), LastModified = 1700000500 * Second,
          IsDirectory = False\<rparr>
   \<and> packs (snd (RescanPacks example_lib collision_env (1700001000 * Second + 10 * Millisecond)
           indexed_pm)) ''alpha'' = None
   \<and> lastScanTime (snd (RescanPacks example_lib collision_env
           (1700001000 * Second + 10 * Millisecond) indexed_pm))
       = 1700001000 * Second + 10 * Millisecond
   \<and> scans_started (snd (RescanPacks example_lib collision_env
           (1700001000 * Second + 10 * Millisecond) indexed_pm)) = 2"
proof -
  let ?now = "1700001000 * Second + 10 * Millisecond"
  let ?entries = "[\<lparr>de_Name = ''bar'', de_IsDir = True\<rparr>, \<lparr>de_Name = ''bar.zip'', de_IsDir = False\<rparr>]"
  note inst = manual_rescan_ignores_cooldown [where lib = example_lib and env = collision_env
      and now = ?now and pm = indexed_pm and entries = ?entries]
  have cool: "time_Sub ?now (lastScanTime indexed_pm) < scanCooldown indexed_pm"
    by (simp add: indexed_pm_fields time_Sub_def Second_def Millisecond_def)
  have old: "packs indexed_pm ''alpha'' \<noteq> None"
    by (simp add: indexed_pm_packs)
  have rd: "os_ReadDir collision_env (packsDirectory indexed_pm) = Inr ?entries"
    by (simp add: collision_env_def indexed_pm_fields)
  from inst rd
  have ok: "fst (RescanPacks example_lib collision_env ?now indexed_pm) = None"
    and idx: "packs (snd (RescanPacks example_lib collision_env ?now indexed_pm)) =
        last_wins (scan_order example_lib collision_env (packsDirectory indexed_pm) ?entries)"
    and last: "lastScanTime (snd (RescanPacks example_lib collision_env ?now indexed_pm)) = ?now"
    by blast+
  from inst
  have "scans_started (snd (RescanPacks example_lib collision_env ?now indexed_pm))
      = Suc (scans_started indexed_pm)"
    by blast
  then have cnt: "scans_started (snd (RescanPacks example_lib collision_env ?now indexed_pm)) = 2"
    by (simp add: indexed_pm_scans)
  have so: "last_wins (scan_order example_lib collision_env (packsDirectory indexed_pm) ?entries)
      = [''bar'' \<mapsto> projr (loadDirectoryPack example_lib example_env ''/packs/bar''),
         ''bar'' \<mapsto> projr (loadZipPack example_lib collision_env ''/packs/bar.zip'')]"
    by (simp add: indexed_pm_fields collision_scan_order last_wins_def
        collision_bar_zip example_bar)
  have bar: "packs (snd (RescanPacks example_lib collision_env ?now indexed_pm)) ''bar''
       = Some \<lparr>Name = ''bar'', Path = ''/packs/bar.zip'',
          Description = ''Resource Pack: bar'', PackFormat = 22, Size = 300,
          Hash = fmt_x (replicate 16 6), LastModified = 1700000500 * Second,
          IsDirectory = False\<rparr>"
    unfolding idx so by (simp add: collision_bar_zip)
  have alpha: "packs (snd (RescanPacks example_lib collision_env ?now indexed_pm)) ''alpha'' = None"
    unfolding idx so by simp
  from cool old rd ok bar alpha last cnt show ?thesis
    by (intro conjI)
qed

subsection \<open>The cooldown\<close>

lemma handleFileEvent_suppressed:
  "time_Sub clock (lastScanTime pm) < scanCooldown pm \<Longrightarrow>
     handleFileEvent lib env d (clock, pm) = (clock, pm)"
  by (simp add: handleFileEvent_def)

lemma scanPacks_fields [simp]:
  "packsDirectory (snd (scanPacks lib env now pm)) = packsDirectory pm"
  "scanCooldown (snd (scanPacks lib env now pm)) = scanCooldown pm"
  by (cases "os_ReadDir env (packsDirectory pm)";
      simp add: scanPacks_failure scanPacks_success_packs)+

lemma scanPacks_lastScanTime:
  "lastScanTime (snd (scanPacks lib env now pm)) =
     (case os_ReadDir env (packsDirectory pm) of Inl err \<Rightarrow> lastScanTime pm | Inr entries \<Rightarrow> now)"
  by (cases "os_ReadDir env (packsDirectory pm)")
     (simp_all add: scanPacks_failure scanPacks_success_packs)

lemma handleFileEvent_scans:
  assumes "\<not> time_Sub clock (lastScanTime pm) < scanCooldown pm"
  shows "fst (handleFileEvent lib env d (clock, pm)) = clock + 500 * Millisecond + d"
    and "scans_started (snd (handleFileEvent lib env d (clock, pm))) = Suc (scans_started pm)"
    and "packsDirectory (snd (handleFileEvent lib env d (clock, pm))) = packsDirectory pm"
    and "scanCooldown (snd (handleFileEvent lib env d (clock, pm))) = scanCooldown pm"
    and "lastScanTime (snd (handleFileEvent lib env d (clock, pm))) =
           (case os_ReadDir env (packsDirectory pm) of
              Inl err \<Rightarrow> lastScanTime pm
            | Inr entries \<Rightarrow> clock + 500 * Millisecond + d)"
proof -
  let ?r = "scanPacks lib env (clock + 500 * Millisecond + d) pm"
  have h: "handleFileEvent lib env d (clock, pm) =
      (clock + 500 * Millisecond + d,
       case fst ?r of
         None \<Rightarrow> snd ?r
       | Some err \<Rightarrow> (snd ?r)\<lparr>logger := logger (snd ?r) @ [ScanAfterChangeFailed err]\<rparr>)"
    using assms
    by (simp add: handleFileEvent_def Let_def split: prod.splits option.splits)
  show "fst (handleFileEvent lib env d (clock, pm)) = clock + 500 * Millisecond + d"
    by (simp add: h)
  show "scans_started (snd (handleFileEvent lib env d (clock, pm))) = Suc (scans_started pm)"
    using scans_started_scanPacks [of lib env "clock + 500 * Millisecond + d" pm]
    by (simp add: h scans_started_logger_update split: option.splits)
  show "packsDirectory (snd (handleFileEvent lib env d (clock, pm))) = packsDirectory pm"
    by (simp add: h split: option.splits)
  show "scanCooldown (snd (handleFileEvent lib env d (clock, pm))) = scanCooldown pm"
    by (simp add: h split: option.splits)
  show "lastScanTime (snd (handleFileEvent lib env d (clock, pm))) =
           (case os_ReadDir env (packsDirectory pm) of
              Inl err \<Rightarrow> lastScanTime pm
            | Inr entries \<Rightarrow> clock + 500 * Millisecond + d)"
    by (simp add: h scanPacks_lastScanTime split: option.splits)
qed

lemma time_Sub_self: "time_Sub t t = 0"
  by (simp add: time_Sub_def)

lemma unreadable_listing:
  "os_ReadDir unreadable_env p = Inl permission_denied"
  by (simp add: unreadable_env_def)

text \<open>
  Claim C6 as stated fails in its second half.  With a cooldown of 2 s, two
  notifications 500 ms apart trigger no scan when the first one arrives 100 ms
  after the last scan (both fall into the cooldown), and they trigger two scans
  when the scan fails because the root directory cannot be read (a failed scan
  does not set \<open>lastScanTime\<close>).  The manager has started one scan before.
\<close>

theorem two_notifications_one_scan_counterexample:
  "scanCooldown indexed_pm = 2 * Second
   \<and> lastScanTime indexed_pm = 1700001000 * Second
   \<and> scans_started indexed_pm = 1
   \<and> scans_started (snd (watch_loop example_lib (1700001000 * Second, indexed_pm)
         [notify (1700001000 * Second + 100 * Millisecond) example_env,
          notify (1700001000 * Second + 600 * Millisecond) example_env])) = 1
   \<and> scans_started (snd (watch_loop example_lib (1700001000 * Second, indexed_pm)
         [notify (1700002000 * Second) unreadable_env,
          notify (1700002000 * Second + 500 * Millisecond) unreadable_env])) = 3"
proof -
  have quiet: "scans_started (snd (watch_loop example_lib (1700001000 * Second, indexed_pm)
         [notify (1700001000 * Second + 100 * Millisecond) example_env,
          notify (1700001000 * Second + 600 * Millisecond) example_env])) = 1"
    by (simp add: watch_loop_def watch_step_def notify_def handleFileEvent_def
        indexed_pm_fields indexed_pm_scans time_Sub_def Second_def Millisecond_def)
  let ?t1 = "1700002000 * Second"
  let ?st1 = "handleFileEvent example_lib unreadable_env (10 * Millisecond) (?t1, indexed_pm)"
  have open1: "\<not> time_Sub ?t1 (lastScanTime indexed_pm) < scanCooldown indexed_pm"
    by (simp add: indexed_pm_fields time_Sub_def Second_def)
  note first = handleFileEvent_scans [OF open1, of example_lib unreadable_env "10 * Millisecond"]
  have clk1: "fst ?st1 = 1700002000 * Second + 510 * Millisecond"
    unfolding first(1) by (simp add: Millisecond_def)
  have last1: "lastScanTime (snd ?st1) = 1700001000 * Second"
    by (simp add: first(5) unreadable_listing indexed_pm_fields)
  have cool1: "scanCooldown (snd ?st1) = 2 * Second"
    by (simp add: first(4) indexed_pm_fields)
  let ?t2 = "1700002000 * Second + 510 * Millisecond"
  have open2: "\<not> time_Sub ?t2 (lastScanTime (snd ?st1)) < scanCooldown (snd ?st1)"
    unfolding last1 cool1 by (simp add: time_Sub_def Second_def Millisecond_def)
  note second = handleFileEvent_scans(2) [OF open2, of example_lib unreadable_env "10 * Millisecond"]
  have m1: "max (1700001000 * Second) (1700002000 * Second) = ?t1"
    by (simp add: Second_def)
  have s1: "watch_step example_lib (1700001000 * Second, indexed_pm)
      (notify (1700002000 * Second) unreadable_env) = ?st1"
    by (simp add: watch_step_def notify_def m1)
  have m2: "max (fst ?st1) (1700002000 * Second + 500 * Millisecond) = ?t2"
    unfolding clk1 by (simp add: Second_def Millisecond_def)
  have s2: "watch_step example_lib ?st1
      (notify (1700002000 * Second + 500 * Millisecond) unreadable_env)
      = handleFileEvent example_lib unreadable_env (10 * Millisecond) (?t2, snd ?st1)"
    by (simp add: watch_step_def notify_def m2)
  have "watch_loop example_lib (1700001000 * Second, indexed_pm)
         [notify (1700002000 * Second) unreadable_env,
          notify (1700002000 * Second + 500 * Millisecond) unreadable_env]
      = handleFileEvent example_lib unreadable_env (10 * Millisecond) (?t2, snd ?st1)"
    by (simp add: watch_loop_def s1 s2)
  then have failing: "scans_started (snd (watch_loop example_lib (1700001000 * Second, indexed_pm)
         [notify (1700002000 * Second) unreadable_env,
          notify (1700002000 * Second + 500 * Millisecond) unreadable_env])) = 3"
    by (simp add: second first(2) indexed_pm_scans)
  from indexed_pm_fields(3) indexed_pm_fields(2) indexed_pm_scans quiet failing
  show ?thesis by (intro conjI)
qed

text \<open>
  Claim C6, amended.  A notification handled while the time since
  \<open>lastScanTime\<close> is below \<open>scanCooldown\<close> triggers no scan and leaves the manager
  unchanged.  With a cooldown of 2 s, of two notifications 500 ms apart that
  the watcher handles one after the other, the second is suppressed and
  exactly one scan is started, provided the first one is handled outside the
  cooldown and its scan succeeds in reading the root directory.
\<close>

theorem cooldown_suppresses:
  "(time_Sub clock (lastScanTime pm) < scanCooldown pm \<longrightarrow>
      handleFileEvent lib env d (clock, pm) = (clock, pm))
   \<and> (scanCooldown pm = 2 * Second
        \<and> ev_time e2 = ev_time e1 + 500 * Millisecond
        \<and> 0 \<le> ev_scan_dur e1
        \<and> \<not> time_Sub (max clock (ev_time e1)) (lastScanTime pm) < scanCooldown pm
        \<and> os_ReadDir (ev_env e1) (packsDirectory pm) = Inr entries \<longrightarrow>
      scans_started (snd (watch_loop lib (clock, pm) [e1, e2])) = Suc (scans_started pm)
      \<and> snd (watch_loop lib (clock, pm) [e1, e2]) = snd (watch_loop lib (clock, pm) [e1]))"
proof (rule conjI; rule impI)
  assume "time_Sub clock (lastScanTime pm) < scanCooldown pm"
  then show "handleFileEvent lib env d (clock, pm) = (clock, pm)"
    by (rule handleFileEvent_suppressed)
next
  assume a: "scanCooldown pm = 2 * Second
        \<and> ev_time e2 = ev_time e1 + 500 * Millisecond
        \<and> 0 \<le> ev_scan_dur e1
        \<and> \<not> time_Sub (max clock (ev_time e1)) (lastScanTime pm) < scanCooldown pm
        \<and> os_ReadDir (ev_env e1) (packsDirectory pm) = Inr entries"
  let ?t1 = "max clock (ev_time e1)"
  let ?st1 = "handleFileEvent lib (ev_env e1) (ev_scan_dur e1) (?t1, pm)"
  let ?t2 = "?t1 + 500 * Millisecond + ev_scan_dur e1"
  from a have open1: "\<not> time_Sub ?t1 (lastScanTime pm) < scanCooldown pm" by simp
  note first = handleFileEvent_scans [OF open1, of lib "ev_env e1" "ev_scan_dur e1"]
  have clk: "fst ?st1 = ?t2" by (rule first(1))
  have last: "lastScanTime (snd ?st1) = ?t2"
    using a by (simp add: first(5))
  have cool: "scanCooldown (snd ?st1) = 2 * Second"
    using a by (simp add: first(4))
  have "ev_time e2 \<le> ?t2" using a by linarith
  then have "max (fst ?st1) (ev_time e2) = ?t2"
    by (simp add: clk)
  then have "time_Sub (max (fst ?st1) (ev_time e2)) (lastScanTime (snd ?st1))
      < scanCooldown (snd ?st1)"
    by (simp add: last cool time_Sub_self Second_def)
  then have second: "handleFileEvent lib (ev_env e2) (ev_scan_dur e2)
      (max (fst ?st1) (ev_time e2), snd ?st1) = (max (fst ?st1) (ev_time e2), snd ?st1)"
    by (rule handleFileEvent_suppressed)
  have loop: "snd (watch_loop lib (clock, pm) [e1, e2]) = snd ?st1"
    by (simp add: watch_loop_def watch_step_def second)
  have one: "snd (watch_loop lib (clock, pm) [e1]) = snd ?st1"
    by (simp add: watch_loop_def watch_step_def)
  show "scans_started (snd (watch_loop lib (clock, pm) [e1, e2])) = Suc (scans_started pm)
      \<and> snd (watch_loop lib (clock, pm) [e1, e2]) = snd (watch_loop lib (clock, pm) [e1])"
    by (simp add: loop one first(2))
qed


theorem cooldown_suppresses_witness:
  "time_Sub (1700001000 * Second) (lastScanTime indexed_pm) < scanCooldown indexed_pm
   \<and> handleFileEvent example_lib example_env (10 * Millisecond) (1700001000 * Second, indexed_pm)
       = (1700001000 * Second, indexed_pm)
   \<and> scanCooldown indexed_pm = 2 * Second
   \<and> ev_time (notify (1700001003 * Second + 500 * Millisecond) example_env)
       = ev_time (notify (1700001003 * Second) example_env) + 500 * Millisecond
   \<and> 0 \<le> ev_scan_dur (notify (1700001003 * Second) example_env)
   \<and> \<not> time_Sub (max (1700001000 * Second) (ev_time (notify (1700001003 * Second) example_env)))
          (lastScanTime indexed_pm) < scanCooldown indexed_pm
   \<and> scans_started indexed_pm = 1
   \<and> scans_started (snd (watch_loop example_lib (1700001000 * Second, indexed_pm)
         [notify (1700001003 * Second) example_env,
          notify (1700001003 * Second + 500 * Millisecond) example_env])) = 2"
proof -
  have h1: "time_Sub (1700001000 * Second) (lastScanTime indexed_pm) < scanCooldown indexed_pm"
    by (simp add: indexed_pm_fields time_Sub_def Second_def)
  have h2: "scanCooldown indexed_pm = 2 * Second
        \<and> ev_time (notify (1700001003 * Second + 500 * Millisecond) example_env)
            = ev_time (notify (1700001003 * Second) example_env) + 500 * Millisecond
        \<and> 0 \<le> ev_scan_dur (notify (1700001003 * Second) example_env)
        \<and> \<not> time_Sub (max (1700001000 * Second) (ev_time (notify (1700001003 * Second) example_env)))
              (lastScanTime indexed_pm) < scanCooldown indexed_pm
        \<and> os_ReadDir (ev_env (notify (1700001003 * Second) example_env))
              (packsDirectory indexed_pm) = Inr (projr (os_ReadDir example_env ''/packs''))"
    by (simp add: indexed_pm_fields notify_def time_Sub_def Second_def Millisecond_def
        example_listing)
  note inst = cooldown_suppresses [where clock = "1700001000 * Second" and pm = indexed_pm
      and lib = example_lib and env = example_env and d = "10 * Millisecond"
      and ?e1.0 = "notify (1700001003 * Second) example_env"
      and ?e2.0 = "notify (1700001003 * Second + 500 * Millisecond) example_env"
      and entries = "projr (os_ReadDir example_env ''/packs'')"]
  from inst h1
  have c1: "handleFileEvent example_lib example_env (10 * Millisecond)
      (1700001000 * Second, indexed_pm) = (1700001000 * Second, indexed_pm)"
    by blast
  from inst h2
  have "scans_started (snd (watch_loop example_lib (1700001000 * Second, indexed_pm)
         [notify (1700001003 * Second) example_env,
          notify (1700001003 * Second + 500 * Millisecond) example_env]))
      = Suc (scans_started indexed_pm)"
    by blast
  then have c2: "scans_started (snd (watch_loop example_lib (1700001000 * Second, indexed_pm)
         [notify (1700001003 * Second) example_env,
          notify (1700001003 * Second + 500 * Millisecond) example_env])) = 2"
    by (simp add: indexed_pm_scans)
  from h1 c1 h2 indexed_pm_scans c2 show ?thesis
    by simp
qed

subsection \<open>Manifests\<close>

lemma parsePackMcmeta_pack_object:
  assumes "json_decode lib content = Some (JMap data)"
    and "map_of data ''pack'' = Some (JMap pack)"
  shows "parsePackMcmeta lib content =
     Some \<lparr>pi_Description =
             (case map_of pack ''description'' of Some (JString desc) \<Rightarrow> desc | _ \<Rightarrow> []),
           pi_PackFormat =
             (case map_of pack ''pack_format'' of
                Some (JFloat format) \<Rightarrow> int_of_float64 format
              | _ \<Rightarrow> 22)\<rparr>"
  using assms by (simp add: parsePackMcmeta_def json_Unmarshal_def)

lemma loadDirectoryPack_info:
  assumes "os_ReadFile env (filepath_Join dirPath ''pack.mcmeta'') = Inr content"
    and "parsePackMcmeta lib content = Some info"
    and "loadDirectoryPack lib env dirPath = Inr loaded"
  shows "Description loaded = pi_Description info \<and> PackFormat loaded = pi_PackFormat info"
  using assms
  by (auto simp: loadDirectoryPack_def dir_pack_info_def Let_def split: sum.splits)

lemma loadZipPack_info:
  assumes "zip_OpenReader env packPath = Inr files"
    and "find (\<lambda>file. zf_Name file = ''pack.mcmeta'') files = Some file"
    and "zf_Open file = Inr (Inr content)"
    and "parsePackMcmeta lib content = Some info"
    and "loadZipPack lib env packPath = Inr loaded"
  shows "Description loaded = pi_Description info \<and> PackFormat loaded = pi_PackFormat info"
  using assms
  by (auto simp: loadZipPack_def zip_pack_info_def Let_def split: sum.splits)

text \<open>
  Claim C10.  When the manifest decodes to a JSON object with an object field
  \<open>pack\<close>, \<open>parsePackMcmeta\<close> succeeds; its description is the empty string
  (not \<open>"Resource Pack: <name>"\<close>) when the \<open>pack\<close> object has no string
  \<open>description\<close>, and its format is 22 when \<open>pack_format\<close> is absent or not a
  number.  A directory pack whose \<open>pack.mcmeta\<close> has this content, and an
  archive pack whose first entry named \<open>pack.mcmeta\<close> has it, carry the parsed
  description and format unchanged.
\<close>

theorem manifest_pack_object_defaults:
  assumes "json_decode lib content = Some (JMap data)"
    and "map_of data ''pack'' = Some (JMap pack)"
  shows "\<exists>info. parsePackMcmeta lib content = Some info
     \<and> ((\<forall>s. map_of pack ''description'' \<noteq> Some (JString s)) \<longrightarrow> pi_Description info = [])
     \<and> ((\<forall>f. map_of pack ''pack_format'' \<noteq> Some (JFloat f)) \<longrightarrow> pi_PackFormat info = 22)
     \<and> (\<forall>env dirPath loaded.
           os_ReadFile env (filepath_Join dirPath ''pack.mcmeta'') = Inr content
           \<and> loadDirectoryPack lib env dirPath = Inr loaded
           \<longrightarrow> Description loaded = pi_Description info
               \<and> PackFormat loaded = pi_PackFormat info)
     \<and> (\<forall>env packPath files file loaded.
           zip_OpenReader env packPath = Inr files
           \<and> find (\<lambda>file. zf_Name file = ''pack.mcmeta'') files = Some file
           \<and> zf_Open file = Inr (Inr content)
           \<and> loadZipPack lib env packPath = Inr loaded
           \<longrightarrow> Description loaded = pi_Description info
               \<and> PackFormat loaded = pi_PackFormat info)"
proof -
  let ?info = "\<lparr>pi_Description =
             (case map_of pack ''description'' of Some (JString desc) \<Rightarrow> desc | _ \<Rightarrow> []),
           pi_PackFormat =
             (case map_of pack ''pack_format'' of
                Some (JFloat format) \<Rightarrow> int_of_float64 format
              | _ \<Rightarrow> 22)\<rparr>"
  have parse: "parsePackMcmeta lib content = Some ?info"
    using assms by (rule parsePackMcmeta_pack_object)
  have desc: "(\<forall>s. map_of pack ''description'' \<noteq> Some (JString s)) \<longrightarrow> pi_Description ?info = []"
    by (auto split: option.splits jvalue.splits)
  have fmt: "(\<forall>f. map_of pack ''pack_format'' \<noteq> Some (JFloat f)) \<longrightarrow> pi_PackFormat ?info = 22"
    by (auto split: option.splits jvalue.splits)
  have dir: "\<forall>env dirPath loaded.
           os_ReadFile env (filepath_Join dirPath ''pack.mcmeta'') = Inr content
           \<and> loadDirectoryPack lib env dirPath = Inr loaded
           \<longrightarrow> Description loaded = pi_Description ?info
               \<and> PackFormat loaded = pi_PackFormat ?info"
    using loadDirectoryPack_info [OF _ parse] by blast
  have zip: "\<forall>env packPath files file loaded.
           zip_OpenReader env packPath = Inr files
           \<and> find (\<lambda>file. zf_Name file = ''pack.mcmeta'') files = Some file
           \<and> zf_Open file = Inr (Inr content)
           \<and> loadZipPack lib env packPath = Inr loaded
           \<longrightarrow> Description loaded = pi_Description ?info
               \<and> PackFormat loaded = pi_PackFormat ?info"
    using loadZipPack_info [OF _ _ _ parse] by blast
  from parse desc fmt dir zip show ?thesis
    by (intro exI [of _ ?info] conjI)
qed

lemma manifest_zip_bar:
  "loadZipPack example_lib manifest_zip_env ''/packs/bar.zip'' =
     Inr \<lparr>Name = ''bar'', Path = ''/packs/bar.zip'', Description = [],
          PackFormat = 22, Size = 300, Hash = fmt_x (replicate 16 6),
          LastModified = 1700000500 * Second, IsDirectory = False\<rparr>"
  by (simp add: loadZipPack_def zip_pack_info_def calculateFileHash_def manifest_zip_env_def
      collision_env_def ex_defs parsePackMcmeta_def json_Unmarshal_def
      filepath_Base_def strings_TrimSuffix_def strings_HasSuffix_def Let_def)

theorem manifest_pack_object_defaults_witness:
  "json_decode example_lib manifest_bar =
     Some (JMap [(''pack'', JMap [(''pack_format'', JString ''9'')])])
   \<and> map_of [(''pack'', JMap [(''pack_format'', JString ''9'')])] ''pack''
       = Some (JMap [(''pack_format'', JString ''9'')])
   \<and> parsePackMcmeta example_lib manifest_bar = Some \<lparr>pi_Description = [], pi_PackFormat = 22\<rparr>
   \<and> os_ReadFile example_env (filepath_Join ''/packs/bar'' ''pack.mcmeta'') = Inr manifest_bar
   \<and> Description (projr (loadDirectoryPack example_lib example_env ''/packs/bar'')) = []
   \<and> PackFormat (projr (loadDirectoryPack example_lib example_env ''/packs/bar'')) = 22
   \<and> Description (projr (loadZipPack example_lib manifest_zip_env ''/packs/bar.zip'')) = []
   \<and> PackFormat (projr (loadZipPack example_lib manifest_zip_env ''/packs/bar.zip'')) = 22"
proof -
  have h1: "json_decode example_lib manifest_bar =
     Some (JMap [(''pack'', JMap [(''pack_format'', JString ''9'')])])"
    by (simp add: example_lib_def)
  have h2: "map_of [(''pack'', JMap [(''pack_format'', JString ''9'')])] ''pack''
       = Some (JMap [(''pack_format'', JString ''9'')])"
    by simp
  have nodesc: "\<forall>s. map_of [(''pack_format'', JString ''9'')] ''description'' \<noteq> Some (JString s)"
    by simp
  have nofmt: "\<forall>f. map_of [(''pack_format'', JString ''9'')] ''pack_format'' \<noteq> Some (JFloat f)"
    by simp
  have rf: "os_ReadFile example_env (filepath_Join ''/packs/bar'' ''pack.mcmeta'') = Inr manifest_bar"
    by (simp add: example_env_def filepath_Join_def)
  have zo: "zip_OpenReader manifest_zip_env ''/packs/bar.zip'' =
      Inr [\<lparr>zf_Name = ''assets/a.png'', zf_Open = Inr (Inr ''png'')\<rparr>,
           \<lparr>zf_Name = ''pack.mcmeta'', zf_Open = Inr (Inr manifest_bar)\<rparr>]"
    by (simp add: manifest_zip_env_def)
  have fd: "find (\<lambda>file. zf_Name file = ''pack.mcmeta'')
      [\<lparr>zf_Name = ''assets/a.png'', zf_Open = Inr (Inr ''png'')\<rparr>,
       \<lparr>zf_Name = ''pack.mcmeta'', zf_Open = Inr (Inr manifest_bar)\<rparr>]
      = Some \<lparr>zf_Name = ''pack.mcmeta'', zf_Open = Inr (Inr manifest_bar)\<rparr>"
    by simp
  from manifest_pack_object_defaults [OF h1 h2]
  obtain info where parse: "parsePackMcmeta example_lib manifest_bar = Some info"
    and desc: "(\<forall>s. map_of [(''pack_format'', JString ''9'')] ''description'' \<noteq> Some (JString s))
        \<longrightarrow> pi_Description info = []"
    and fmt: "(\<forall>f. map_of [(''pack_format'', JString ''9'')] ''pack_format'' \<noteq> Some (JFloat f))
        \<longrightarrow> pi_PackFormat info = 22"
    and dir: "\<forall>env dirPath loaded.
           os_ReadFile env (filepath_Join dirPath ''pack.mcmeta'') = Inr manifest_bar
           \<and> loadDirectoryPack example_lib env dirPath = Inr loaded
           \<longrightarrow> Description loaded = pi_Description info
               \<and> PackFormat loaded = pi_PackFormat info"
    and zip: "\<forall>env packPath files file loaded.
           zip_OpenReader env packPath = Inr files
           \<and> find (\<lambda>file. zf_Name file = ''pack.mcmeta'') files = Some file
           \<and> zf_Open file = Inr (Inr manifest_bar)
           \<and> loadZipPack example_lib env packPath = Inr loaded
           \<longrightarrow> Description loaded = pi_Description info
               \<and> PackFormat loaded = pi_PackFormat info"
    by blast
  from desc nodesc have d: "pi_Description info = []" by blast
  from fmt nofmt have f: "pi_PackFormat info = 22" by blast
  from parse d f have p: "parsePackMcmeta example_lib manifest_bar
      = Some \<lparr>pi_Description = [], pi_PackFormat = 22\<rparr>"
    by simp
  from dir rf example_bar d f
  have l1: "Description (projr (loadDirectoryPack example_lib example_env ''/packs/bar'')) = []
      \<and> PackFormat (projr (loadDirectoryPack example_lib example_env ''/packs/bar'')) = 22"
    by (metis sum.sel(2))
  from zip zo fd manifest_zip_bar d f
  have l2: "Description (projr (loadZipPack example_lib manifest_zip_env ''/packs/bar.zip'')) = []
      \<and> PackFormat (projr (loadZipPack example_lib manifest_zip_env ''/packs/bar.zip'')) = 22"
    by (metis ZipFile.select_convs(2) sum.sel(2))
  from h1 h2 p rf l1 l2 show ?thesis
    by (intro conjI) simp_all
qed

subsection \<open>Candidates without a manifest\<close>

lemma set_map_filter:
  "set (List.map_filter f xs) = {y. \<exists>x \<in> set xs. f x = Some y}"
  by (induction xs) (auto split: option.splits)

lemma map_filter_append:
  "List.map_filter f (xs @ ys) = List.map_filter f xs @ List.map_filter f ys"
  by (induction xs) (simp_all split: option.splits)

lemma ran_last_wins: "ran (last_wins ps) \<subseteq> set ps"
proof
  fix p assume "p \<in> ran (last_wins ps)"
  then obtain n where "map_of (rev (map (\<lambda>pack. (Name pack, pack)) ps)) n = Some p"
    by (auto simp: ran_def last_wins_def)
  then have "(n, p) \<in> set (rev (map (\<lambda>pack. (Name pack, pack)) ps))"
    by (rule map_of_SomeD)
  then show "p \<in> set ps" by auto
qed

lemma entry_candidate_directory:
  "entry_candidate lib env rootDir e = Some pack \<Longrightarrow> IsDirectory pack \<Longrightarrow>
     isResourcePackDirectory env (Path pack)"
  by (auto simp: entry_candidate_def Let_def split: if_splits sum.splits
      dest: loadDirectoryPack_fields loadZipPack_fields)

lemma root_candidate_directory:
  "root_candidate lib env rootDir = Some pack \<Longrightarrow> isResourcePackDirectory env (Path pack)"
  by (auto simp: root_candidate_def split: if_splits sum.splits
      dest: loadDirectoryPack_fields)

lemma scan_order_directory:
  assumes "pack \<in> set (scan_order lib env rootDir entries)" and "IsDirectory pack"
  shows "isResourcePackDirectory env (Path pack)"
proof -
  from assms(1) consider "root_candidate lib env rootDir = Some pack"
    | e where "entry_candidate lib env rootDir e = Some pack"
    by (auto simp: scan_order_def set_map_filter split: option.splits)
  then show ?thesis
  proof cases
    case 1
    then show ?thesis by (rule root_candidate_directory)
  next
    case 2
    then show ?thesis using assms(2) by (rule entry_candidate_directory)
  qed
qed

lemma indexed_directory_has_manifest:
  assumes "pack \<in> ran (packs (snd (scanPacks lib env now pm)))" and "IsDirectory pack"
  shows "isResourcePackDirectory env (Path pack)"
proof (cases "os_ReadDir env (packsDirectory pm)")
  case (Inl err)
  from assms(1) have "root_candidate lib env (packsDirectory pm) = Some pack"
    by (auto simp: scanPacks_failure [OF Inl] scan_root_candidate add_pack_def ran_def
        split: option.splits if_splits)
  then show ?thesis by (rule root_candidate_directory)
next
  case (Inr entries)
  from assms(1) have "pack \<in> set (scan_order lib env (packsDirectory pm) entries)"
    using ran_last_wins by (auto simp: scanPacks_success_packs(2) [OF Inr])
  then show ?thesis using assms(2) by (rule scan_order_directory)
qed

lemma less_append: "ys \<noteq> [] \<Longrightarrow> xs < xs @ (ys :: 'a :: linorder list)"
  by (induction xs) (auto simp: neq_Nil_conv)

lemma HasSuffix_split: "strings_HasSuffix s suf \<Longrightarrow> s = strings_TrimSuffix s suf @ suf"
  by (simp add: strings_TrimSuffix_def strings_HasSuffix_def) (metis append_take_drop_id)

lemma filepath_Base_Join:
  assumes "n \<noteq> []" and "CHR ''/'' \<notin> set n"
  shows "filepath_Base (filepath_Join d n) = n"
proof -
  have hd: "hd (rev n) \<noteq> CHR ''/''"
    using assms by (metis hd_rev last_in_set)
  have rv: "rev (d @ ''/'' @ n) = rev n @ CHR ''/'' # rev d"
    by simp
  have dw: "dropWhile (\<lambda>c. c = CHR ''/'') (rev n @ CHR ''/'' # rev d) = rev n @ CHR ''/'' # rev d"
    using assms hd by (cases "rev n") simp_all
  have tw: "takeWhile (\<lambda>c. c \<noteq> CHR ''/'') (rev n @ CHR ''/'' # rev d) = rev n"
    using assms(2) by (subst takeWhile_append2) auto
  have ne: "d @ ''/'' @ n \<noteq> []"
    by simp
  show ?thesis
    unfolding filepath_Base_def filepath_Join_def Let_def rv dw rev_rev_ident tw
    using assms(1) ne by simp
qed

lemma entry_candidate_Name:
  assumes "entry_candidate lib env rootDir e = Some pack"
    and "de_Name e \<noteq> []" and "CHR ''/'' \<notin> set (de_Name e)"
  shows "if de_IsDir e then Name pack = de_Name e
         else de_Name e = Name pack @ ''.zip''"
proof (cases "de_IsDir e")
  case True
  with assms(1) have "Name pack = filepath_Base (filepath_Join rootDir (de_Name e))"
    by (auto simp: entry_candidate_def Let_def split: if_splits sum.splits
        dest: loadDirectoryPack_fields)
  with True assms(2,3) show ?thesis
    by (simp add: filepath_Base_Join)
next
  case False
  with assms(1) have suf: "strings_HasSuffix (de_Name e) ''.zip''"
    and "Name pack = strings_TrimSuffix (filepath_Base (filepath_Join rootDir (de_Name e))) ''.zip''"
    by (auto simp: entry_candidate_def Let_def split: if_splits sum.splits
        dest: loadZipPack_fields)
  then have "Name pack = strings_TrimSuffix (de_Name e) ''.zip''"
    using assms(2,3) by (simp add: filepath_Base_Join)
  with HasSuffix_split [OF suf] False show ?thesis
    by simp
qed

lemma later_entry_other_name:
  assumes "strings_HasSuffix n ''.zip''" and "n < de_Name e"
    and "de_Name e \<noteq> []" and "CHR ''/'' \<notin> set (de_Name e)"
    and "entry_candidate lib env rootDir e = Some pack"
  shows "Name pack \<noteq> strings_TrimSuffix n ''.zip''"
proof
  assume eq: "Name pack = strings_TrimSuffix n ''.zip''"
  from HasSuffix_split [OF assms(1)] have n: "n = Name pack @ ''.zip''"
    by (simp add: eq)
  show False
  proof (cases "de_IsDir e")
    case True
    with entry_candidate_Name [OF assms(5,3,4)] have "de_Name e = Name pack" by simp
    moreover have "Name pack < Name pack @ ''.zip''"
      by (rule less_append) simp
    ultimately show False using assms(2) n by simp
  next
    case False
    with entry_candidate_Name [OF assms(5,3,4)] have "de_Name e = Name pack @ ''.zip''" by simp
    with assms(2) n show False by simp
  qed
qed

lemma last_wins_later_none:
  assumes "\<forall>q \<in> set qs. Name q \<noteq> Name p"
  shows "last_wins (ps @ p # qs) (Name p) = Some p"
proof -
  have "filter (\<lambda>pack. Name pack = Name p) (ps @ p # qs) =
      filter (\<lambda>pack. Name pack = Name p) ps @ [p]"
    using assms by (simp add: filter_empty_conv)
  then show ?thesis
    by (simp add: last_wins_lookup)
qed

lemma loadZipPack_no_manifest:
  assumes "os_Stat env zipPath = Inr stat"
    and "zip_OpenReader env zipPath = Inr files"
    and "list_all (\<lambda>file. zf_Name file \<noteq> ''pack.mcmeta'') files"
    and "calculateFileHash lib env zipPath = Inr h"
  shows "loadZipPack lib env zipPath =
     Inr \<lparr>Name = strings_TrimSuffix (filepath_Base zipPath) ''.zip'', Path = zipPath,
          Description = ''Resource Pack: '' @ strings_TrimSuffix (filepath_Base zipPath) ''.zip'',
          PackFormat = 22, Size = fi_Size stat, Hash = h,
          LastModified = fi_ModTime stat, IsDirectory = False\<rparr>"
proof -
  from assms(3) have "find (\<lambda>file. zf_Name file = ''pack.mcmeta'') files = None"
    by (simp add: find_None_iff list_all_iff)
  with assms show ?thesis
    by (simp add: loadZipPack_def zip_pack_info_def Let_def)
qed

lemma archive_without_manifest_indexed:
  assumes rd: "os_ReadDir env (packsDirectory pm) = Inr entries"
    and ok: "listing_ok entries"
    and mem: "entry \<in> set entries"
    and plain: "\<not> de_IsDir entry"
    and suffix: "strings_HasSuffix (de_Name entry) ''.zip''"
    and stat: "os_Stat env (filepath_Join (packsDirectory pm) (de_Name entry)) = Inr stat"
    and zip: "zip_OpenReader env (filepath_Join (packsDirectory pm) (de_Name entry)) = Inr files"
    and none: "list_all (\<lambda>file. zf_Name file \<noteq> ''pack.mcmeta'') files"
    and hash: "calculateFileHash lib env (filepath_Join (packsDirectory pm) (de_Name entry)) = Inr h"
  shows "packs (snd (scanPacks lib env now pm)) (strings_TrimSuffix (de_Name entry) ''.zip'') =
     Some \<lparr>Name = strings_TrimSuffix (de_Name entry) ''.zip'',
           Path = filepath_Join (packsDirectory pm) (de_Name entry),
           Description = ''Resource Pack: '' @ strings_TrimSuffix (de_Name entry) ''.zip'',
           PackFormat = 22, Size = fi_Size stat, Hash = h,
           LastModified = fi_ModTime stat, IsDirectory = False\<rparr>"
proof -
  let ?root = "packsDirectory pm"
  let ?name = "strings_TrimSuffix (de_Name entry) ''.zip''"
  let ?p = "\<lparr>Name = ?name, Path = filepath_Join ?root (de_Name entry),
           Description = ''Resource Pack: '' @ ?name,
           PackFormat = 22, Size = fi_Size stat, Hash = h,
           LastModified = fi_ModTime stat, IsDirectory = False\<rparr>"
  from mem obtain before after where split: "entries = before @ entry # after"
    by (auto dest: split_list)
  from ok mem have nm: "de_Name entry \<noteq> []" "CHR ''/'' \<notin> set (de_Name entry)"
    by (auto simp: listing_ok_def list_all_iff)
  then have base: "filepath_Base (filepath_Join ?root (de_Name entry)) = de_Name entry"
    by (rule filepath_Base_Join)
  have load: "loadZipPack lib env (filepath_Join ?root (de_Name entry)) = Inr ?p"
    using loadZipPack_no_manifest [OF stat zip none hash] by (simp add: base)
  then have cand: "entry_candidate lib env ?root entry = Some ?p"
    using plain suffix by (simp add: entry_candidate_def)
  have later: "\<forall>q \<in> set (List.map_filter (entry_candidate lib env ?root) after). Name q \<noteq> Name ?p"
  proof
    fix q assume "q \<in> set (List.map_filter (entry_candidate lib env ?root) after)"
    then obtain e where e: "e \<in> set after" and q: "entry_candidate lib env ?root e = Some q"
      by (auto simp: set_map_filter)
    from ok split e have "de_Name entry \<le> de_Name e" and "de_Name entry \<noteq> de_Name e"
      by (auto simp: listing_ok_def sorted_append)
    then have lt: "de_Name entry < de_Name e" by simp
    from ok split e have "de_Name e \<noteq> []" "CHR ''/'' \<notin> set (de_Name e)"
      by (auto simp: listing_ok_def list_all_iff)
    from later_entry_other_name [OF suffix lt this q] show "Name q \<noteq> Name ?p"
      by simp
  qed
  have so: "scan_order lib env ?root entries =
      ((case root_candidate lib env ?root of None \<Rightarrow> [] | Some pack \<Rightarrow> [pack])
        @ List.map_filter (entry_candidate lib env ?root) before)
      @ ?p # List.map_filter (entry_candidate lib env ?root) after"
    by (simp add: scan_order_def split map_filter_append cand)
  have "last_wins (scan_order lib env ?root entries) (Name ?p) = Some ?p"
    unfolding so by (rule last_wins_later_none [OF later])
  then have "last_wins (scan_order lib env ?root entries) ?name = Some ?p"
    by simp
  then show ?thesis
    by (simp only: scanPacks_success_packs(2) [OF rd])
qed


text \<open>
  Claim C3.  A directory without a top-level \<open>pack.mcmeta\<close> (the \<open>os.Stat\<close> of
  it fails) is skipped: after a scan the index holds no directory pack with
  that path.  An archive \<open>.zip\<close> of the listing that opens and has no entry
  named \<open>pack.mcmeta\<close>, and that can be statted and hashed, is in the index
  under its name, with description \<open>"Resource Pack: <name>"\<close> and format 22.
  The listing is one \<open>os.ReadDir\<close> can return (\<open>listing_ok\<close>).
\<close>

theorem missing_manifest:
  "(\<not> isResourcePackDirectory env dirPath \<longrightarrow>
      (\<forall>pack \<in> ran (packs (snd (scanPacks lib env now pm))).
         \<not> (IsDirectory pack \<and> Path pack = dirPath)))
   \<and> (os_ReadDir env (packsDirectory pm) = Inr entries
        \<and> listing_ok entries
        \<and> entry \<in> set entries
        \<and> \<not> de_IsDir entry
        \<and> strings_HasSuffix (de_Name entry) ''.zip''
        \<and> os_Stat env (filepath_Join (packsDirectory pm) (de_Name entry)) = Inr stat
        \<and> zip_OpenReader env (filepath_Join (packsDirectory pm) (de_Name entry)) = Inr files
        \<and> list_all (\<lambda>file. zf_Name file \<noteq> ''pack.mcmeta'') files
        \<and> calculateFileHash lib env (filepath_Join (packsDirectory pm) (de_Name entry)) = Inr h
      \<longrightarrow>
      packs (snd (scanPacks lib env now pm)) (strings_TrimSuffix (de_Name entry) ''.zip'') =
        Some \<lparr>Name = strings_TrimSuffix (de_Name entry) ''.zip'',
              Path = filepath_Join (packsDirectory pm) (de_Name entry),
              Description = ''Resource Pack: '' @ strings_TrimSuffix (de_Name entry) ''.zip'',
              PackFormat = 22, Size = fi_Size stat, Hash = h,
              LastModified = fi_ModTime stat, IsDirectory = False\<rparr>)"
proof (rule conjI; rule impI)
  assume "\<not> isResourcePackDirectory env dirPath"
  then show "\<forall>pack \<in> ran (packs (snd (scanPacks lib env now pm))).
         \<not> (IsDirectory pack \<and> Path pack = dirPath)"
    using indexed_directory_has_manifest [of _ lib env now pm] by blast
next
  assume "os_ReadDir env (packsDirectory pm) = Inr entries
        \<and> listing_ok entries
        \<and> entry \<in> set entries
        \<and> \<not> de_IsDir entry
        \<and> strings_HasSuffix (de_Name entry) ''.zip''
        \<and> os_Stat env (filepath_Join (packsDirectory pm) (de_Name entry)) = Inr stat
        \<and> zip_OpenReader env (filepath_Join (packsDirectory pm) (de_Name entry)) = Inr files
        \<and> list_all (\<lambda>file. zf_Name file \<noteq> ''pack.mcmeta'') files
        \<and> calculateFileHash lib env (filepath_Join (packsDirectory pm) (de_Name entry)) = Inr h"
  then show "packs (snd (scanPacks lib env now pm)) (strings_TrimSuffix (de_Name entry) ''.zip'') =
        Some \<lparr>Name = strings_TrimSuffix (de_Name entry) ''.zip'',
              Path = filepath_Join (packsDirectory pm) (de_Name entry),
              Description = ''Resource Pack: '' @ strings_TrimSuffix (de_Name entry) ''.zip'',
              PackFormat = 22, Size = fi_Size stat, Hash = h,
              LastModified = fi_ModTime stat, IsDirectory = False\<rparr>"
    using archive_without_manifest_indexed [of env pm entries entry stat files lib h now]
    by blast
qed

theorem missing_manifest_witness:
  "\<not> isResourcePackDirectory example_env ''/packs/empty''
   \<and> {pack \<in> ran (packs (snd (scanPacks example_lib example_env (1700001000 * Second) example_pm))).
        IsDirectory pack \<and> Path pack = ''/packs/empty''} = {}
   \<and> os_ReadDir example_env (packsDirectory example_pm) =
       Inr [\<lparr>de_Name = ''alpha.zip'', de_IsDir = False\<rparr>,
            \<lparr>de_Name = ''bar'', de_IsDir = True\<rparr>,
            \<lparr>de_Name = ''empty'', de_IsDir = True\<rparr>,
            \<lparr>de_Name = ''foo.zip'', de_IsDir = False\<rparr>,
            \<lparr>de_Name = ''notes.txt'', de_IsDir = False\<rparr>]
   \<and> listing_ok
       [\<lparr>de_Name = ''alpha.zip'', de_IsDir = False\<rparr>,
        \<lparr>de_Name = ''bar'', de_IsDir = True\<rparr>,
        \<lparr>de_Name = ''empty'', de_IsDir = True\<rparr>,
        \<lparr>de_Name = ''foo.zip'', de_IsDir = False\<rparr>,
        \<lparr>de_Name = ''notes.txt'', de_IsDir = False\<rparr>]
   \<and> strings_HasSuffix ''alpha.zip'' ''.zip''
   \<and> os_Stat example_env ''/packs/alpha.zip'' = Inr (file_info 120 (1700000100 * Second))
   \<and> zip_OpenReader example_env ''/packs/alpha.zip'' =
       Inr [\<lparr>zf_Name = ''assets/a.png'', zf_Open = Inr (Inr ''png'')\<rparr>]
   \<and> calculateFileHash example_lib example_env ''/packs/alpha.zip'' = Inr (fmt_x (replicate 16 8))
   \<and> packs (snd (scanPacks example_lib example_env (1700001000 * Second) example_pm)) ''alpha'' =
       Some \<lparr>Name = ''alpha'', Path = ''/packs/alpha.zip'',
             Description = ''Resource Pack: alpha'', PackFormat = 22, Size = 120,
             Hash = fmt_x (replicate 16 8), LastModified = 1700000100 * Second,
             IsDirectory = False\<rparr>"
proof -
  let ?entries = "[\<lparr>de_Name = ''alpha.zip'', de_IsDir = False\<rparr>,
            \<lparr>de_Name = ''bar'', de_IsDir = True\<rparr>,
            \<lparr>de_Name = ''empty'', de_IsDir = True\<rparr>,
            \<lparr>de_Name = ''foo.zip'', de_IsDir = False\<rparr>,
            \<lparr>de_Name = ''notes.txt'', de_IsDir = False\<rparr>]"
  let ?entry = "\<lparr>de_Name = ''alpha.zip'', de_IsDir = False\<rparr>"
  let ?files = "[\<lparr>zf_Name = ''assets/a.png'', zf_Open = Inr (Inr ''png'')\<rparr>]"
  note inst = missing_manifest [where env = example_env and dirPath = "''/packs/empty''"
      and lib = example_lib and now = "1700001000 * Second" and pm = example_pm
      and entries = ?entries and entry = ?entry
      and stat = "file_info 120 (1700000100 * Second)" and files = ?files
      and h = "fmt_x (replicate 16 8)"]
  have a1: "\<not> isResourcePackDirectory example_env ''/packs/empty''"
    by (rule example_is_pack_dir)
  have b1: "os_ReadDir example_env (packsDirectory example_pm) = Inr ?entries"
    by (simp add: example_pm_def example_listing)
  have b2: "listing_ok ?entries"
    by (simp add: listing_ok_def)
  have b3: "strings_HasSuffix ''alpha.zip'' ''.zip''"
    by (simp add: strings_HasSuffix_def)
  have b4: "os_Stat example_env ''/packs/alpha.zip'' = Inr (file_info 120 (1700000100 * Second))"
    by (simp add: example_env_def)
  have b5: "zip_OpenReader example_env ''/packs/alpha.zip'' = Inr ?files"
    by (simp add: example_env_def)
  have b6: "calculateFileHash example_lib example_env ''/packs/alpha.zip''
      = Inr (fmt_x (replicate 16 8))"
    by (simp add: calculateFileHash_def example_env_def example_lib_def)
  have jn: "filepath_Join (packsDirectory example_pm) (de_Name ?entry) = ''/packs/alpha.zip''"
    by (simp add: filepath_Join_def example_pm_def)
  have tr: "strings_TrimSuffix (de_Name ?entry) ''.zip'' = ''alpha''"
    by (simp add: strings_TrimSuffix_def strings_HasSuffix_def)
  from inst a1
  have "\<forall>pack \<in> ran (packs (snd (scanPacks example_lib example_env (1700001000 * Second) example_pm))).
         \<not> (IsDirectory pack \<and> Path pack = ''/packs/empty'')"
    by (rule conjunct1 [THEN mp])
  then have c1: "{pack \<in> ran (packs (snd (scanPacks example_lib example_env (1700001000 * Second) example_pm))).
        IsDirectory pack \<and> Path pack = ''/packs/empty''} = {}"
    by blast
  have hyp: "os_ReadDir example_env (packsDirectory example_pm) = Inr ?entries
        \<and> listing_ok ?entries
        \<and> ?entry \<in> set ?entries
        \<and> \<not> de_IsDir ?entry
        \<and> strings_HasSuffix (de_Name ?entry) ''.zip''
        \<and> os_Stat example_env (filepath_Join (packsDirectory example_pm) (de_Name ?entry))
            = Inr (file_info 120 (1700000100 * Second))
        \<and> zip_OpenReader example_env (filepath_Join (packsDirectory example_pm) (de_Name ?entry))
            = Inr ?files
        \<and> list_all (\<lambda>file. zf_Name file \<noteq> ''pack.mcmeta'') ?files
        \<and> calculateFileHash example_lib example_env
              (filepath_Join (packsDirectory example_pm) (de_Name ?entry))
            = Inr (fmt_x (replicate 16 8))"
    unfolding jn using b1 b2 b3 b4 b5 b6 by simp
  from inst hyp
  have "packs (snd (scanPacks example_lib example_env (1700001000 * Second) example_pm))
        (strings_TrimSuffix (de_Name ?entry) ''.zip'') =
        Some \<lparr>Name = strings_TrimSuffix (de_Name ?entry) ''.zip'',
              Path = filepath_Join (packsDirectory example_pm) (de_Name ?entry),
              Description = ''Resource Pack: '' @ strings_TrimSuffix (de_Name ?entry) ''.zip'',
              PackFormat = 22, Size = fi_Size (file_info 120 (1700000100 * Second)),
              Hash = fmt_x (replicate 16 8),
              LastModified = fi_ModTime (file_info 120 (1700000100 * Second)),
              IsDirectory = False\<rparr>"
    by (rule conjunct2 [THEN mp])
  then have c2: "packs (snd (scanPacks example_lib example_env (1700001000 * Second) example_pm))
        ''alpha'' =
       Some \<lparr>Name = ''alpha'', Path = ''/packs/alpha.zip'',
             Description = ''Resource Pack: alpha'', PackFormat = 22, Size = 120,
             Hash = fmt_x (replicate 16 8), LastModified = 1700000100 * Second,
             IsDirectory = False\<rparr>"
    unfolding jn tr by (simp add: file_info_def)
  from a1 c1 b1 b2 b3 b4 b5 b6 c2 show ?thesis
    by (intro conjI)
qed

end
